theory Spec2Isabelle
  imports Main "HOL-Library.Word" "HOL-Library.Sublist" "HOL-Library.AList"
begin

section \<open>JavaScript strings and errors\<close>

text \<open>
  A JavaScript string is a sequence of 16-bit code units. String literals of the
  source are written \<open>str ''...''\<close>; every literal of the source is ASCII.
\<close>

type_synonym jschar = "16 word"
type_synonym jsstring = "jschar list"

definition ch :: "char \<Rightarrow> jschar" where
  "ch c = of_nat (of_char c)"

definition str :: "string \<Rightarrow> jsstring" where
  "str s = map ch s"

text \<open>\<^verbatim>\<open>s.includes(t)\<close>: \<open>t\<close> occurs in \<open>s\<close> as a contiguous run of code units.\<close>

fun includes_str :: "jsstring \<Rightarrow> jsstring \<Rightarrow> bool" where
  "includes_str [] t = (t = [])"
| "includes_str (x # xs) t = (prefix t (x # xs) \<or> includes_str xs t)"

text \<open>
  \<^verbatim>\<open>WhiteSpace\<close> and \<^verbatim>\<open>LineTerminator\<close> of ECMAScript: what \<^verbatim>\<open>\s\<close> matches and what
  \<^verbatim>\<open>trim\<close> strips. \<^verbatim>\<open>\w\<close> is \<^verbatim>\<open>[A-Za-z0-9_]\<close>.
\<close>

definition isWhiteSpace :: "jschar \<Rightarrow> bool" where
  "isWhiteSpace c \<longleftrightarrow>
     c = 0x09 \<or> c = 0x0A \<or> c = 0x0B \<or> c = 0x0C \<or> c = 0x0D \<or> c = 0x20 \<or> c = 0xA0
     \<or> c = 0x1680 \<or> (0x2000 \<le> c \<and> c \<le> 0x200A) \<or> c = 0x2028 \<or> c = 0x2029
     \<or> c = 0x202F \<or> c = 0x205F \<or> c = 0x3000 \<or> c = 0xFEFF"

definition isLineTerminator :: "jschar \<Rightarrow> bool" where
  "isLineTerminator c \<longleftrightarrow> c = 0x0A \<or> c = 0x0D \<or> c = 0x2028 \<or> c = 0x2029"

definition isWordChar :: "jschar \<Rightarrow> bool" where
  "isWordChar c \<longleftrightarrow>
     (0x61 \<le> c \<and> c \<le> 0x7A) \<or> (0x41 \<le> c \<and> c \<le> 0x5A) \<or> (0x30 \<le> c \<and> c \<le> 0x39)
     \<or> c = 0x5F"

definition trim :: "jsstring \<Rightarrow> jsstring" where
  "trim s = rev (dropWhile isWhiteSpace (rev (dropWhile isWhiteSpace s)))"

text \<open>
  Every value thrown in the two modules is an \<^verbatim>\<open>Error\<close> object: the ones the source
  creates with \<^verbatim>\<open>new Error(msg)\<close>, the \<^verbatim>\<open>SyntaxError\<close> of \<^verbatim>\<open>JSON.parse\<close>, the
  \<^verbatim>\<open>TypeError\<close> of a property read on \<^verbatim>\<open>null\<close> or of a call of a non-function,
  and the rejection of the remote call (an \<^verbatim>\<open>Error\<close> of the client library). Each
  carries its \<^verbatim>\<open>message\<close>. A promise that rejects with \<open>e\<close> is the result \<open>Inl e\<close>,
  one that fulfils with \<open>v\<close> is \<open>Inr v\<close>.
\<close>

datatype js_error = Error jsstring | SyntaxError jsstring | TypeError jsstring

fun message :: "js_error \<Rightarrow> jsstring" where
  "message (Error m) = m"
| "message (SyntaxError m) = m"
| "message (TypeError m) = m"

section \<open>Regular expressions\<close>

text \<open>
  The fragment of ECMAScript regular expressions the source uses: a sequence of
  literals and of greedy repetitions \<^verbatim>\<open>*\<close> and \<^verbatim>\<open>+\<close> of one character class
  (\<^verbatim>\<open>.\<close>, \<^verbatim>\<open>\s\<close>, \<^verbatim>\<open>\w\<close>), with capture groups around a repetition, \<^verbatim>\<open>$\<close> (no
  flag: the end of the input) and \<^verbatim>\<open>^\<close> at the front (\<open>fromStart\<close>). No regular
  expression of the source carries a flag.
\<close>

datatype charclass = AnyChar | WhiteSpace | WordChar

fun inClass :: "charclass \<Rightarrow> jschar \<Rightarrow> bool" where
  "inClass AnyChar c = (\<not> isLineTerminator c)"
| "inClass WhiteSpace c = isWhiteSpace c"
| "inClass WordChar c = isWordChar c"

datatype atom = Lit jsstring | Star charclass | Plus charclass

datatype piece = Plain atom | Group atom | EndOfInput

record regex =
  fromStart :: bool
  pieces :: "piece list"

text \<open>
  The backtracking matcher. A greedy repetition first takes one more character and
  gives it back when the rest of the pattern (the continuation \<open>k\<close>, which gets the
  text taken and the remaining input) fails.
\<close>

fun greedy ::
  "(jschar \<Rightarrow> bool) \<Rightarrow> (jsstring \<Rightarrow> jsstring \<Rightarrow> 'a option) \<Rightarrow> jsstring \<Rightarrow> jsstring \<Rightarrow> 'a option"
where
  "greedy P k acc [] = k acc []"
| "greedy P k acc (x # xs) =
     (if P x
      then (case greedy P k (acc @ [x]) xs of Some r \<Rightarrow> Some r | None \<Rightarrow> k acc (x # xs))
      else k acc (x # xs))"

fun matchAtom :: "atom \<Rightarrow> (jsstring \<Rightarrow> jsstring \<Rightarrow> 'a option) \<Rightarrow> jsstring \<Rightarrow> 'a option" where
  "matchAtom (Lit l) k s = (if prefix l s then k l (drop (length l) s) else None)"
| "matchAtom (Star c) k s = greedy (inClass c) k [] s"
| "matchAtom (Plus c) k s =
     greedy (inClass c) (\<lambda>txt rest. if txt = [] then None else k txt rest) [] s"

text \<open>The result of a match at a position: the captures and the input after the match.\<close>

fun matchPieces :: "piece list \<Rightarrow> jsstring \<Rightarrow> (jsstring list \<times> jsstring) option" where
  "matchPieces [] s = Some ([], s)"
| "matchPieces (EndOfInput # ps) s = (if s = [] then matchPieces ps s else None)"
| "matchPieces (Plain a # ps) s = matchAtom a (\<lambda>txt rest. matchPieces ps rest) s"
| "matchPieces (Group a # ps) s =
     matchAtom a
       (\<lambda>txt rest. map_option (\<lambda>(caps, r). (txt # caps, r)) (matchPieces ps rest)) s"

text \<open>The leftmost match: the input before it, the captures, the input after it.\<close>

fun search ::
  "piece list \<Rightarrow> jsstring \<Rightarrow> jsstring \<Rightarrow> (jsstring \<times> jsstring list \<times> jsstring) option"
where
  "search ps pre [] =
     (case matchPieces ps [] of Some (caps, rest) \<Rightarrow> Some (pre, caps, rest) | None \<Rightarrow> None)"
| "search ps pre (x # xs) =
     (case matchPieces ps (x # xs) of
        Some (caps, rest) \<Rightarrow> Some (pre, caps, rest)
      | None \<Rightarrow> search ps (pre @ [x]) xs)"

declare greedy.simps [simp del] matchAtom.simps [simp del] matchPieces.simps [simp del]
  search.simps [simp del]

definition exec :: "regex \<Rightarrow> jsstring \<Rightarrow> (jsstring \<times> jsstring list \<times> jsstring) option" where
  "exec r s =
     (if fromStart r
      then (case matchPieces (pieces r) s of
              Some (caps, rest) \<Rightarrow> Some ([], caps, rest)
            | None \<Rightarrow> None)
      else search (pieces r) [] s)"

text \<open>
  \<^verbatim>\<open>s.replace(r, new)\<close> for a regular expression without the \<^verbatim>\<open>g\<close> flag replaces the
  leftmost match (the source only ever replaces by the empty string). \<^verbatim>\<open>s.match(r)\<close>
  is \<^verbatim>\<open>null\<close> (\<open>None\<close>) or the array of the matched text and the captures.
\<close>

definition replace :: "regex \<Rightarrow> jsstring \<Rightarrow> jsstring \<Rightarrow> jsstring" where
  "replace r new s =
     (case exec r s of None \<Rightarrow> s | Some (pre, caps, rest) \<Rightarrow> pre @ new @ rest)"

definition match :: "regex \<Rightarrow> jsstring \<Rightarrow> jsstring list option" where
  "match r s =
     (case exec r s of
        None \<Rightarrow> None
      | Some (pre, caps, rest) \<Rightarrow>
          Some (take (length s - length pre - length rest) (drop (length pre) s) # caps))"

section \<open>The helpers of the first module\<close>

text \<open>
  \<^verbatim>\<open>cleanJSON\<close>: the three replacements \<^verbatim>\<open>/^```json\s*/\<close> (\<open>openingJsonFence\<close>),
  \<^verbatim>\<open>/^```\s*/\<close> (\<open>openingFence\<close>) and \<^verbatim>\<open>/\s*```$/\<close> (\<open>closingFence\<close>), then \<^verbatim>\<open>trim\<close>.
  \<^verbatim>\<open>!text\<close> holds of the empty string.
\<close>

definition openingJsonFence :: regex where
  "openingJsonFence =
     \<lparr>fromStart = True, pieces = [Plain (Lit (str ''```json'')), Plain (Star WhiteSpace)]\<rparr>"

definition openingFence :: regex where
  "openingFence =
     \<lparr>fromStart = True, pieces = [Plain (Lit (str ''```'')), Plain (Star WhiteSpace)]\<rparr>"

definition closingFence :: regex where
  "closingFence =
     \<lparr>fromStart = False,
      pieces = [Plain (Star WhiteSpace), Plain (Lit (str ''```'')), EndOfInput]\<rparr>"

definition cleanJSON :: "jsstring \<Rightarrow> jsstring" where
  "cleanJSON text =
     (if text = [] then []
      else trim (replace closingFence [] (replace openingFence [] (replace openingJsonFence [] text))))"

record InlineData =
  mimeType :: jsstring
  data :: jsstring

text \<open>
  \<^verbatim>\<open>parseDataUrl\<close> (the same function in both modules): the match of
  \<^verbatim>\<open>/^data:(.+);base64,(.+)$/\<close> (\<open>dataUrlPattern\<close>), and the fallback that strips
  \<^verbatim>\<open>/^data:image\/\w+;base64,/\<close> (\<open>imagePrefixPattern\<close>).
\<close>

definition dataUrlPattern :: regex where
  "dataUrlPattern =
     \<lparr>fromStart = True,
      pieces = [Plain (Lit (str ''data:'')), Group (Plus AnyChar), Plain (Lit (str '';base64,'')),
                Group (Plus AnyChar), EndOfInput]\<rparr>"

definition imagePrefixPattern :: regex where
  "imagePrefixPattern =
     \<lparr>fromStart = True,
      pieces = [Plain (Lit (str ''data:image/'')), Plain (Plus WordChar),
                Plain (Lit (str '';base64,''))]\<rparr>"

definition parseDataUrl :: "jsstring \<Rightarrow> InlineData" where
  "parseDataUrl dataUrl =
     (case match dataUrlPattern dataUrl of
        Some matches \<Rightarrow>
          if length matches = 3 then \<lparr>mimeType = matches ! 1, data = matches ! 2\<rparr>
          else \<lparr>mimeType = str ''image/jpeg'', data = replace imagePrefixPattern [] dataUrl\<rparr>
      | None \<Rightarrow>
          \<lparr>mimeType = str ''image/jpeg'', data = replace imagePrefixPattern [] dataUrl\<rparr>)"

section \<open>The client factory (first module)\<close>

text \<open>The handle \<^verbatim>\<open>new GoogleGenAI({ apiKey })\<close>; the key is \<^verbatim>\<open>string | undefined\<close>.\<close>

record GoogleGenAI =
  apiKey :: "jsstring option"

text \<open>
  \<^verbatim>\<open>getAIClient\<close> reads \<^verbatim>\<open>process.env.API_KEY\<close> (here the argument: \<open>None\<close> is
  \<^verbatim>\<open>undefined\<close>). \<^verbatim>\<open>!key\<close> holds of \<^verbatim>\<open>undefined\<close> and of the empty string. The
  \<^verbatim>\<open>console.error\<close> before the throw is not modelled.
\<close>

definition getAIClient :: "jsstring option \<Rightarrow> js_error + GoogleGenAI" where
  "getAIClient key =
     (case key of
        None \<Rightarrow> Inl (Error (str ''API Key ontbreekt of is ongeldig. Controleer Vercel instellingen.''))
      | Some k \<Rightarrow>
          if k = [] \<or> includes_str k (str ''YOUR_API_KEY'') \<or> k = str ''undefined''
          then Inl (Error (str ''API Key ontbreekt of is ongeldig. Controleer Vercel instellingen.''))
          else Inr \<lparr>apiKey = Some k\<rparr>)"

section \<open>JavaScript values and \<^verbatim>\<open>JSON.parse\<close>\<close>

text \<open>
  A number read by \<^verbatim>\<open>JSON.parse\<close> is kept as the decimal it was written as:
  \<open>Decimal neg m e\<close> is \<open>m * 10 ^ e\<close>, negated when \<open>neg\<close>; the JavaScript value is the
  double nearest to it. An object is the list of its own properties; \<^verbatim>\<open>JSON.parse\<close>
  creates no other kind of object.
\<close>

datatype jsnumber = Decimal bool nat int

datatype jsval =
    JUndefined
  | JNull
  | JBool bool
  | JNumber jsnumber
  | JString jsstring
  | JArray "jsval list"
  | JObject "(jsstring \<times> jsval) list"

text \<open>
  The JSON grammar (ECMA-404), as \<^verbatim>\<open>JSON.parse\<close> reads it. White space is space, tab,
  line feed and carriage return. A string runs to the closing quote (\<open>0x22\<close>); a
  backslash (\<open>0x5C\<close>) starts an escape; a code unit below \<open>0x20\<close> is not allowed.
\<close>

definition isJsonWs :: "jschar \<Rightarrow> bool" where
  "isJsonWs c \<longleftrightarrow> c = 0x20 \<or> c = 0x09 \<or> c = 0x0A \<or> c = 0x0D"

definition skipWs :: "jsstring \<Rightarrow> jsstring" where
  "skipWs s = dropWhile isJsonWs s"

definition isDigit :: "jschar \<Rightarrow> bool" where
  "isDigit c \<longleftrightarrow> 0x30 \<le> c \<and> c \<le> 0x39"

definition hexVal :: "jschar \<Rightarrow> nat option" where
  "hexVal c =
     (if 0x30 \<le> c \<and> c \<le> 0x39 then Some (unat c - 0x30)
      else if 0x41 \<le> c \<and> c \<le> 0x46 then Some (unat c - 0x41 + 10)
      else if 0x61 \<le> c \<and> c \<le> 0x66 then Some (unat c - 0x61 + 10)
      else None)"

definition hex4 :: "jschar \<Rightarrow> jschar \<Rightarrow> jschar \<Rightarrow> jschar \<Rightarrow> jschar option" where
  "hex4 h1 h2 h3 h4 =
     (case (hexVal h1, hexVal h2, hexVal h3, hexVal h4) of
        (Some a, Some b, Some c, Some d) \<Rightarrow> Some (of_nat (((a * 16 + b) * 16 + c) * 16 + d))
      | _ \<Rightarrow> None)"

text \<open>The one-letter escapes: quote, backslash, slash, and \<^verbatim>\<open>b f n r t\<close>.\<close>

definition unescape :: "jschar \<Rightarrow> jschar option" where
  "unescape e =
     (if e = 0x22 \<or> e = 0x5C \<or> e = 0x2F then Some e
      else if e = 0x62 then Some 0x08
      else if e = 0x66 then Some 0x0C
      else if e = 0x6E then Some 0x0A
      else if e = 0x72 then Some 0x0D
      else if e = 0x74 then Some 0x09
      else None)"

text \<open>The characters of a string after its opening quote; \<open>0x75\<close> is \<^verbatim>\<open>u\<close>.\<close>

fun parseChars :: "jsstring \<Rightarrow> jsstring \<Rightarrow> (jsstring \<times> jsstring) option" where
  "parseChars acc [] = None"
| "parseChars acc (c # cs) =
     (if c = 0x22 then Some (acc, cs)
      else if c = 0x5C then
        (case cs of
           [] \<Rightarrow> None
         | e # r \<Rightarrow>
             if e = 0x75 then
               (case r of
                  h1 # h2 # h3 # h4 # r' \<Rightarrow>
                    (case hex4 h1 h2 h3 h4 of
                       None \<Rightarrow> None
                     | Some u \<Rightarrow> parseChars (acc @ [u]) r')
                | _ \<Rightarrow> None)
             else
               (case unescape e of
                  None \<Rightarrow> None
                | Some x \<Rightarrow> parseChars (acc @ [x]) r))
      else if c < 0x20 then None
      else parseChars (acc @ [c]) cs)"

fun digitsVal :: "nat \<Rightarrow> jsstring \<Rightarrow> nat" where
  "digitsVal n [] = n"
| "digitsVal n (d # ds) = digitsVal (n * 10 + (unat d - 0x30)) ds"

text \<open>
  A number: an optional minus (\<open>0x2D\<close>), the integer part (no leading zero), an
  optional fraction after \<open>0x2E\<close>, an optional exponent after \<^verbatim>\<open>e\<close> or \<^verbatim>\<open>E\<close>. A
  number that stops short of its grammar (\<^verbatim>\<open>01\<close>, \<^verbatim>\<open>1.\<close>, \<^verbatim>\<open>1e\<close>) is an error, since no
  JSON text continues after a number with a digit, a point or a letter.
\<close>

definition intPart :: "jsstring \<Rightarrow> (jsstring \<times> jsstring) option" where
  "intPart s =
     (let ds = takeWhile isDigit s
      in if ds = [] \<or> (hd ds = 0x30 \<and> length ds > 1) then None
         else Some (ds, dropWhile isDigit s))"

definition fracPart :: "jsstring \<Rightarrow> (jsstring \<times> jsstring) option" where
  "fracPart s =
     (if prefix [0x2E] s
      then (let ds = takeWhile isDigit (tl s)
            in if ds = [] then None else Some (ds, dropWhile isDigit (tl s)))
      else Some ([], s))"

definition expPart :: "jsstring \<Rightarrow> (int \<times> jsstring) option" where
  "expPart s =
     (if prefix [0x65] s \<or> prefix [0x45] s
      then (let neg = prefix [0x2D] (tl s);
                s' = (if prefix [0x2D] (tl s) \<or> prefix [0x2B] (tl s) then tl (tl s) else tl s);
                ds = takeWhile isDigit s'
            in if ds = [] then None
               else Some (if neg then - int (digitsVal 0 ds) else int (digitsVal 0 ds),
                          dropWhile isDigit s'))
      else Some (0, s))"

definition parseNumber :: "jsstring \<Rightarrow> (jsnumber \<times> jsstring) option" where
  "parseNumber s =
     (let neg = prefix [0x2D] s
      in case intPart (if neg then tl s else s) of
           None \<Rightarrow> None
         | Some (ip, s2) \<Rightarrow>
             (case fracPart s2 of
                None \<Rightarrow> None
              | Some (fp, s3) \<Rightarrow>
                  (case expPart s3 of
                     None \<Rightarrow> None
                   | Some (e, s4) \<Rightarrow>
                       Some (Decimal neg (digitsVal 0 (ip @ fp)) (e - int (length fp)), s4))))"

definition parseScalar :: "jsstring \<Rightarrow> (jsval \<times> jsstring) option" where
  "parseScalar s =
     (if prefix [0x22] s then
        (case parseChars [] (tl s) of None \<Rightarrow> None | Some (t, r) \<Rightarrow> Some (JString t, r))
      else if prefix (str ''true'') s then Some (JBool True, drop 4 s)
      else if prefix (str ''false'') s then Some (JBool False, drop 5 s)
      else if prefix (str ''null'') s then Some (JNull, drop 4 s)
      else (case parseNumber s of None \<Rightarrow> None | Some (n, r) \<Rightarrow> Some (JNumber n, r)))"

text \<open>
  \<open>closing c s\<close>: the container closes at once (\<^verbatim>\<open>{}\<close>, \<^verbatim>\<open>[]\<close>). \<open>separator c s\<close>:
  after an element comes a comma (\<open>0x2C\<close>) or the closing bracket. \<open>memberKey\<close>: the
  key of a member and its colon (\<open>0x3A\<close>).
\<close>

definition closing :: "jschar \<Rightarrow> jsstring \<Rightarrow> jsstring option" where
  "closing close s =
     (case skipWs s of [] \<Rightarrow> None | d # r \<Rightarrow> if d = close then Some r else None)"

datatype separator = More jsstring | Closed jsstring | Neither

definition separator :: "jschar \<Rightarrow> jsstring \<Rightarrow> separator" where
  "separator close s =
     (case skipWs s of
        [] \<Rightarrow> Neither
      | d # r \<Rightarrow> if d = 0x2C then More r else if d = close then Closed r else Neither)"

definition memberKey :: "jsstring \<Rightarrow> (jsstring \<times> jsstring) option" where
  "memberKey s =
     (case skipWs s of
        [] \<Rightarrow> None
      | q # r0 \<Rightarrow>
          if q \<noteq> 0x22 then None
          else
            (case parseChars [] r0 of
               None \<Rightarrow> None
             | Some (key, r1) \<Rightarrow>
                 (case skipWs r1 of
                    [] \<Rightarrow> None
                  | colon # r2 \<Rightarrow> if colon = 0x3A then Some (key, r2) else None)))"

text \<open>
  A value starts with \<open>0x7B\<close> (an object, closed by \<open>0x7D\<close>), with \<open>0x5B\<close> (an array,
  closed by \<open>0x5D\<close>) or is a scalar. A key that occurs twice keeps its place and takes
  the later value.
\<close>

function (domintros) parseValue :: "jsstring \<Rightarrow> (jsval \<times> jsstring) option"
  and parseElements :: "jsval list \<Rightarrow> jsstring \<Rightarrow> (jsval list \<times> jsstring) option"
  and parseMembers ::
    "(jsstring \<times> jsval) list \<Rightarrow> jsstring \<Rightarrow> ((jsstring \<times> jsval) list \<times> jsstring) option"
where
  "parseValue [] = None"
| "parseValue (c # cs) =
     (if c = 0x7B then
        (case closing 0x7D cs of
           Some r \<Rightarrow> Some (JObject [], r)
         | None \<Rightarrow>
             (case parseMembers [] cs of None \<Rightarrow> None | Some (ms, r) \<Rightarrow> Some (JObject ms, r)))
      else if c = 0x5B then
        (case closing 0x5D cs of
           Some r \<Rightarrow> Some (JArray [], r)
         | None \<Rightarrow>
             (case parseElements [] cs of None \<Rightarrow> None | Some (vs, r) \<Rightarrow> Some (JArray vs, r)))
      else parseScalar (c # cs))"
| "parseElements acc s =
     (case parseValue (skipWs s) of
        None \<Rightarrow> None
      | Some (v, r) \<Rightarrow>
          (case separator 0x5D r of
             More r' \<Rightarrow> parseElements (acc @ [v]) r'
           | Closed r' \<Rightarrow> Some (acc @ [v], r')
           | Neither \<Rightarrow> None))"
| "parseMembers acc s =
     (case memberKey s of
        None \<Rightarrow> None
      | Some (key, r) \<Rightarrow>
          (case parseValue (skipWs r) of
             None \<Rightarrow> None
           | Some (v, r') \<Rightarrow>
               (case separator 0x7D r' of
                  More r'' \<Rightarrow> parseMembers (AList.update key v acc) r''
                | Closed r'' \<Rightarrow> Some (AList.update key v acc, r'')
                | Neither \<Rightarrow> None)))"
  by pat_completeness (simp_all split del: if_split)

subsection \<open>The parser terminates: every step consumes input\<close>

lemma length_skipWs: "length (skipWs s) \<le> length s"
  by (simp add: skipWs_def length_dropWhile_le)

lemma closing_shorter: "closing c s = Some r \<Longrightarrow> length r < length s"
  using length_skipWs [of s] by (auto simp: closing_def split: list.splits if_splits)

lemma separator_More_shorter: "separator c s = More r \<Longrightarrow> length r < length s"
  using length_skipWs [of s] by (auto simp: separator_def split: list.splits if_splits)

lemma separator_Closed_shorter: "separator c s = Closed r \<Longrightarrow> length r < length s"
  using length_skipWs [of s] by (auto simp: separator_def split: list.splits if_splits)

lemma parseChars_shorter: "parseChars acc s = Some (t, r) \<Longrightarrow> length r < length s"
proof (induction "length s" arbitrary: acc s rule: less_induct)
  case less
  show ?case
  proof (cases s)
    case Nil
    with less.prems show ?thesis by simp
  next
    case (Cons c cs)
    note s = Cons
    show ?thesis
    proof (cases "c = 0x22")
      case True
      with s less.prems show ?thesis by simp
    next
      case q: False
      show ?thesis
      proof (cases "c = 0x5C")
        case False
        with q s less.prems have "parseChars (acc @ [c]) cs = Some (t, r)"
          by (simp split: if_splits)
        with less.hyps [of cs] s show ?thesis by fastforce
      next
        case bs: True
        show ?thesis
        proof (cases cs)
          case Nil
          with bs q s less.prems show ?thesis by simp
        next
          case (Cons e r0)
          note cs = Cons
          show ?thesis
          proof (cases "e = 0x75")
            case False
            with cs bs q s less.prems obtain x where "parseChars (acc @ [x]) r0 = Some (t, r)"
              by (simp split: option.splits)
            with less.hyps [of r0] s cs show ?thesis by fastforce
          next
            case True
            with cs bs q s less.prems obtain h1 h2 h3 h4 r' u
              where "r0 = h1 # h2 # h3 # h4 # r'" "parseChars (acc @ [u]) r' = Some (t, r)"
              by (simp split: list.splits option.splits)
            with less.hyps [of r'] s cs show ?thesis by fastforce
          qed
        qed
      qed
    qed
  qed
qed

lemma memberKey_shorter: "memberKey s = Some (k, r) \<Longrightarrow> length r < length s"
proof -
  assume a: "memberKey s = Some (k, r)"
  then obtain q r0 where s: "skipWs s = q # r0" and q: "q = 0x22"
    by (cases "skipWs s") (auto simp: memberKey_def split: if_splits)
  with a obtain r1 where p: "parseChars [] r0 = Some (k, r1)"
    by (cases "parseChars [] r0") (auto simp: memberKey_def split: list.splits if_splits)
  with a s q obtain colon where c: "skipWs r1 = colon # r"
    by (cases "skipWs r1") (auto simp: memberKey_def split: if_splits)
  from length_skipWs [of r1] c have "length r < length r1" by simp
  also from parseChars_shorter [OF p] have "length r1 < length r0" .
  also from length_skipWs [of s] s have "length r0 < length s" by simp
  finally show ?thesis .
qed

lemma length_dropWhile_takeWhile:
  "takeWhile P s \<noteq> [] \<Longrightarrow> length (dropWhile P s) < length s"
  by (cases s) (auto simp: le_imp_less_Suc length_dropWhile_le split: if_splits)

lemma intPart_shorter: "intPart s = Some (ds, r) \<Longrightarrow> length r < length s"
  by (auto simp: intPart_def Let_def length_dropWhile_takeWhile split: if_splits)

lemma fracPart_shorter: "fracPart s = Some (ds, r) \<Longrightarrow> length r \<le> length s"
proof (cases "prefix [0x2E] s")
  case True
  assume "fracPart s = Some (ds, r)"
  with True have "r = dropWhile isDigit (tl s)"
    by (simp add: fracPart_def Let_def split: if_splits)
  with length_dropWhile_le [of isDigit "tl s"] show ?thesis by simp
next
  case False
  assume "fracPart s = Some (ds, r)"
  with False show ?thesis by (simp add: fracPart_def)
qed

lemma expPart_shorter: "expPart s = Some (e, r) \<Longrightarrow> length r \<le> length s"
proof (cases "prefix [0x65] s \<or> prefix [0x45] s")
  case True
  assume "expPart s = Some (e, r)"
  with True obtain s' where "r = dropWhile isDigit s'" "s' = tl (tl s) \<or> s' = tl s"
    by (auto simp: expPart_def Let_def split: if_splits)
  with length_dropWhile_le [of isDigit s'] show ?thesis by auto
next
  case False
  assume "expPart s = Some (e, r)"
  with False show ?thesis by (simp add: expPart_def)
qed

lemma parseNumber_shorter: "parseNumber s = Some (n, r) \<Longrightarrow> length r < length s"
proof -
  assume a: "parseNumber s = Some (n, r)"
  then obtain ip s2 where i: "intPart (if prefix [0x2D] s then tl s else s) = Some (ip, s2)"
    by (auto simp: parseNumber_def Let_def split: option.splits)
  with a obtain fp s3 where f: "fracPart s2 = Some (fp, s3)"
    by (auto simp: parseNumber_def Let_def split: option.splits)
  with a i obtain e where e: "expPart s3 = Some (e, r)"
    by (auto simp: parseNumber_def Let_def split: option.splits)
  from intPart_shorter [OF i] have "length s2 < length s" by (auto split: if_splits)
  with fracPart_shorter [OF f] expPart_shorter [OF e] show ?thesis by simp
qed

lemma parseScalar_shorter: "parseScalar s = Some (v, r) \<Longrightarrow> length r < length s"
proof -
  assume a: "parseScalar s = Some (v, r)"
  then consider t where "prefix [0x22] s" "parseChars [] (tl s) = Some (t, r)"
    | "prefix (str ''true'') s" "r = drop 4 s"
    | "prefix (str ''false'') s" "r = drop 5 s"
    | "prefix (str ''null'') s" "r = drop 4 s"
    | n where "parseNumber s = Some (n, r)"
    by (auto simp: parseScalar_def split: if_splits option.splits)
  then show ?thesis
  proof cases
    case 1
    from parseChars_shorter [OF 1(2)] 1(1) show ?thesis by (cases s) auto
  next
    case 2 then show ?thesis by (cases s) (auto simp: str_def)
  next
    case 3 then show ?thesis by (cases s) (auto simp: str_def)
  next
    case 4 then show ?thesis by (cases s) (auto simp: str_def)
  next
    case 5 from parseNumber_shorter [OF this] show ?thesis .
  qed
qed

lemma parse_shorter_dom:
  "parseValue_parseElements_parseMembers_dom (Inl s) \<Longrightarrow>
     parseValue s = Some (v, r) \<Longrightarrow> length r < length s"
  "parseValue_parseElements_parseMembers_dom (Inr (Inl (acc, s'))) \<Longrightarrow>
     parseElements acc s' = Some (vs, r') \<Longrightarrow> length r' < length s'"
  "parseValue_parseElements_parseMembers_dom (Inr (Inr (acc', s''))) \<Longrightarrow>
     parseMembers acc' s'' = Some (ms, r'') \<Longrightarrow> length r'' < length s''"
proof (induction s and acc s' and acc' s'' arbitrary: v r and vs r' and ms r''
    rule: parseValue_parseElements_parseMembers.pinduct)
  case 1
  then show ?case by (simp add: parseValue.psimps)
next
  case (2 c cs)
  note eq = "2.prems" [unfolded parseValue.psimps(2) [OF "2.hyps"]]
  show ?case
  proof (cases "c = 0x7B")
    case True
    show ?thesis
    proof (cases "closing 0x7D cs")
      case (Some r0)
      with eq True have "r = r0" by simp
      with closing_shorter [OF Some] show ?thesis by simp
    next
      case None
      with eq True obtain ms where "parseMembers [] cs = Some (ms, r)"
        by (auto split: option.splits)
      from "2.IH"(1) [OF True None this] show ?thesis by simp
    qed
  next
    case nb: False
    show ?thesis
    proof (cases "c = 0x5B")
      case True
      show ?thesis
      proof (cases "closing 0x5D cs")
        case (Some r0)
        with eq nb True have "r = r0" by simp
        with closing_shorter [OF Some] show ?thesis by simp
      next
        case None
        with eq nb True obtain vs where "parseElements [] cs = Some (vs, r)"
          by (auto split: option.splits)
        from "2.IH"(2) [OF nb True None this] show ?thesis by simp
      qed
    next
      case False
      with eq nb have "parseScalar (c # cs) = Some (v, r)" by simp
      from parseScalar_shorter [OF this] show ?thesis .
    qed
  qed
next
  case (3 acc s)
  note eq = "3.prems" [unfolded parseElements.psimps [OF "3.hyps"]]
  from eq obtain v r0 where pv: "parseValue (skipWs s) = Some (v, r0)"
    by (cases "parseValue (skipWs s)") auto
  from "3.IH"(1) [OF pv] length_skipWs [of s] have l0: "length r0 < length s" by simp
  show ?case
  proof (cases "separator 0x5D r0")
    case (More r1)
    with eq pv have "parseElements (acc @ [v]) r1 = Some (vs, r')" by simp
    from "3.IH"(2) [OF pv refl More this] separator_More_shorter [OF More] l0
    show ?thesis by simp
  next
    case (Closed r1)
    with eq pv have "r' = r1" by simp
    with separator_Closed_shorter [OF Closed] l0 show ?thesis by simp
  next
    case Neither
    with eq pv show ?thesis by simp
  qed
next
  case (4 acc s)
  note eq = "4.prems" [unfolded parseMembers.psimps [OF "4.hyps"]]
  from eq obtain key r0 where mk: "memberKey s = Some (key, r0)"
    by (cases "memberKey s") auto
  with eq obtain v r1 where pv: "parseValue (skipWs r0) = Some (v, r1)"
    by (cases "parseValue (skipWs r0)") auto
  from "4.IH"(1) [OF mk refl pv] length_skipWs [of r0] memberKey_shorter [OF mk]
  have l1: "length r1 < length s" by simp
  show ?case
  proof (cases "separator 0x7D r1")
    case (More r2)
    with eq mk pv have "parseMembers (AList.update key v acc) r2 = Some (ms, r'')" by simp
    from "4.IH"(2) [OF mk refl pv refl More this] separator_More_shorter [OF More] l1
    show ?thesis by simp
  next
    case (Closed r2)
    with eq mk pv have "r'' = r2" by simp
    with separator_Closed_shorter [OF Closed] l1 show ?thesis by simp
  next
    case Neither
    with eq mk pv show ?thesis by simp
  qed
qed

termination parseValue
proof (relation "measure (\<lambda>x. case x of
          Inl s \<Rightarrow> 2 * length s
        | Inr (Inl (acc, s)) \<Rightarrow> 2 * length s + 1
        | Inr (Inr (acc, s)) \<Rightarrow> 2 * length s + 1)", goal_cases)
  case 1
  then show ?case by simp
next
  case (2 c cs)
  then show ?case by simp
next
  case (3 c cs)
  then show ?case by simp
next
  case (4 acc s)
  then show ?case using length_skipWs [of s] by simp
next
  case (5 acc s x2 x y x1)
  then have "parseValue (skipWs s) = Some (x, y)" by simp
  from parse_shorter_dom(1) [OF 5(4) this] length_skipWs [of s] separator_More_shorter [OF 5(3)]
  show ?case by simp
next
  case (6 acc s x2 x y)
  from memberKey_shorter [of s x y] 6 length_skipWs [of y] show ?case by simp
next
  case (7 acc s x2 x y x2a xa ya x1)
  then have "parseValue (skipWs y) = Some (xa, ya)" and "memberKey s = Some (x, y)" by simp_all
  from parse_shorter_dom(1) [OF 7(6) this(1)] memberKey_shorter [OF this(2)] length_skipWs [of y]
    separator_More_shorter [OF 7(5)]
  show ?case by simp
qed

declare parseValue.simps [simp del] parseElements.simps [simp del] parseMembers.simps [simp del]


text \<open>
  What the messages of the runtime's own errors are is left to the engine: the
  \<^verbatim>\<open>SyntaxError\<close> of \<^verbatim>\<open>JSON.parse\<close> on a text, the \<^verbatim>\<open>TypeError\<close> of reading a property of
  \<^verbatim>\<open>null\<close> or \<^verbatim>\<open>undefined\<close>, and the one of calling what is not a function. The
  message is a parameter of the model (\<open>errorMessage\<close> below).
\<close>

datatype failure = InvalidJSON jsstring | ReadProperty jsval jsstring | NotAFunction jsstring

definition JSON_parse :: "(failure \<Rightarrow> jsstring) \<Rightarrow> jsstring \<Rightarrow> js_error + jsval" where
  "JSON_parse msg text =
     (case parseValue (skipWs text) of
        None \<Rightarrow> Inl (SyntaxError (msg (InvalidJSON text)))
      | Some (v, rest) \<Rightarrow>
          if skipWs rest = [] then Inr v else Inl (SyntaxError (msg (InvalidJSON text))))"

text \<open>
  Truthiness. A number is falsy when its double is zero: the decimal is zero, or so
  small that it rounds to zero (at most \<open>2 ^ -1075\<close>, half the least subnormal).
\<close>

fun isZero :: "jsnumber \<Rightarrow> bool" where
  "isZero (Decimal neg m e) = (m = 0 \<or> (e < 0 \<and> m * 2 ^ 1075 \<le> 10 ^ nat (- e)))"

fun truthy :: "jsval \<Rightarrow> bool" where
  "truthy JUndefined = False"
| "truthy JNull = False"
| "truthy (JBool b) = b"
| "truthy (JNumber n) = (\<not> isZero n)"
| "truthy (JString s) = (s \<noteq> [])"
| "truthy (JArray xs) = True"
| "truthy (JObject ps) = True"

text \<open>\<^verbatim>\<open>a || b\<close>\<close>

definition orElse :: "jsval \<Rightarrow> jsval \<Rightarrow> jsval" where
  "orElse a b = (if truthy a then a else b)"

text \<open>
  \<^verbatim>\<open>v.name\<close> for the names the source reads (\<^verbatim>\<open>items\<close>, \<^verbatim>\<open>problem\<close>, \<^verbatim>\<open>answer\<close>), none
  of which is a property of a built-in prototype: the own property of an object,
  \<^verbatim>\<open>undefined\<close> on every other value but \<^verbatim>\<open>null\<close> and \<^verbatim>\<open>undefined\<close>, where the read
  throws.
\<close>

fun getProp :: "(failure \<Rightarrow> jsstring) \<Rightarrow> jsval \<Rightarrow> jsstring \<Rightarrow> js_error + jsval" where
  "getProp msg JNull name = Inl (TypeError (msg (ReadProperty JNull name)))"
| "getProp msg JUndefined name = Inl (TypeError (msg (ReadProperty JUndefined name)))"
| "getProp msg (JObject ps) name =
     Inr (case map_of ps name of None \<Rightarrow> JUndefined | Some v \<Rightarrow> v)"
| "getProp msg v name = Inr JUndefined"

text \<open>An array index in a template literal: its decimal digits.\<close>

fun showNat :: "nat \<Rightarrow> jsstring" where
  "showNat n =
     (if n < 10 then [of_nat (0x30 + n)]
      else showNat (n div 10) @ [of_nat (0x30 + n mod 10)])"

declare showNat.simps [simp del]

section \<open>The remote service and the environment\<close>

text \<open>
  The request of \<^verbatim>\<open>ai.models.generateContent\<close> and its response, of which the source
  reads \<^verbatim>\<open>text\<close> (a string or \<^verbatim>\<open>undefined\<close>).
\<close>

datatype part = InlineDataPart InlineData | TextPart jsstring

datatype schema =
    ObjectSchema "(jsstring \<times> schema) list"
  | ArraySchema schema
  | StringSchema
  | BooleanSchema

record GenerateContentConfig =
  systemInstruction :: "jsstring option"
  responseMimeType :: jsstring
  responseSchema :: schema

record GenerateContentParameters =
  model :: jsstring
  contents :: "part list"
  config :: GenerateContentConfig

record GenerateContentResponse =
  text' :: "jsstring option"

text \<open>
  What the code does not decide: the value of \<^verbatim>\<open>process.env.API_KEY\<close>, the outcome
  of the remote call (a rejection or a response), and the messages of the engine.
\<close>

record environment =
  API_KEY :: "jsstring option"
  generateContent ::
    "GoogleGenAI \<Rightarrow> GenerateContentParameters \<Rightarrow> js_error + GenerateContentResponse"
  errorMessage :: "failure \<Rightarrow> jsstring"

section \<open>Subject detection and item generation (first module)\<close>

record SubjectContext =
  subject :: jsstring
  isMath :: bool

record BingoItem =
  id' :: jsstring
  problem :: jsval
  answer :: jsval

datatype mode = similar | exact

text \<open>\<^verbatim>\<open>if (imageBase64)\<close>: neither \<^verbatim>\<open>null\<close>, \<^verbatim>\<open>undefined\<close> nor the empty string.\<close>

definition hasImage :: "jsstring option \<Rightarrow> bool" where
  "hasImage imageBase64 = (case imageBase64 of None \<Rightarrow> False | Some img \<Rightarrow> img \<noteq> [])"

definition imageParts :: "jsstring option \<Rightarrow> part list" where
  "imageParts imageBase64 =
     (case imageBase64 of
        None \<Rightarrow> []
      | Some img \<Rightarrow> if img \<noteq> [] then [InlineDataPart (parseDataUrl img)] else [])"

definition detectSubjectRequest :: "jsstring \<Rightarrow> jsstring option \<Rightarrow> GenerateContentParameters" where
  "detectSubjectRequest topic imageBase64 =
     \<lparr>model = str ''gemini-2.5-flash'',
      contents = imageParts imageBase64 @
        [TextPart
          (str ''Analyseer de input (tekst: \"'' @
            topic @
            str ''\") en/of de afbeelding.\<newline>\<newline>1. Bepaal het schoolvak (bijv. Wiskunde, Geschiedenis).\<newline>2. Zet 'isMath' op true ALLEEN als het Wiskunde of een vak met formules is (LaTeX nodig).\<newline>\<newline>'')],
      config =
        \<lparr>systemInstruction = None,
         responseMimeType = str ''application/json'',
         responseSchema =
           ObjectSchema [(str ''subject'', StringSchema), (str ''isMath'', BooleanSchema)]\<rparr>\<rparr>"

text \<open>
  The body of the \<^verbatim>\<open>try\<close> block of \<^verbatim>\<open>detectSubject\<close>; \<^verbatim>\<open>response.text || ""\<close> is the
  text, or the empty string when there is none.
\<close>

definition detectSubject_try ::
  "environment \<Rightarrow> GoogleGenAI \<Rightarrow> jsstring \<Rightarrow> jsstring option \<Rightarrow> js_error + jsval"
where
  "detectSubject_try env ai topic imageBase64 =
     (case generateContent env ai (detectSubjectRequest topic imageBase64) of
        Inl e \<Rightarrow> Inl e
      | Inr response \<Rightarrow>
          (let cleanText = cleanJSON (case text' response of None \<Rightarrow> [] | Some t \<Rightarrow> t)
           in if cleanText \<noteq> [] then JSON_parse (errorMessage env) cleanText
              else Inl (Error (str ''Geen antwoord van AI (Leeg)''))))"

text \<open>
  \<^verbatim>\<open>detectSubject\<close>: the client is built before the \<^verbatim>\<open>try\<close>; the \<^verbatim>\<open>catch\<close> throws the
  error again when its message holds \<^verbatim>\<open>API Key\<close> and returns the default otherwise.
  The result is whatever \<^verbatim>\<open>JSON.parse\<close> returned (the cast to \<^verbatim>\<open>SubjectContext\<close> checks
  nothing).
\<close>

definition detectSubject :: "environment \<Rightarrow> jsstring \<Rightarrow> jsstring option \<Rightarrow> js_error + jsval" where
  "detectSubject env topic imageBase64 =
     (case getAIClient (API_KEY env) of
        Inl e \<Rightarrow> Inl e
      | Inr ai \<Rightarrow>
          (case detectSubject_try env ai topic imageBase64 of
             Inr v \<Rightarrow> Inr v
           | Inl error \<Rightarrow>
               if includes_str (message error) (str ''API Key'') then Inl error
               else Inr (JObject [(str ''subject'', JString (str ''Algemeen'')),
                                  (str ''isMath'', JBool False)])))"

definition formatInstruction :: "SubjectContext \<Rightarrow> jsstring" where
  "formatInstruction context =
     (if isMath context
      then str ''\<newline>      NOTATIE (WISKUNDE):\<newline>      - Gebruik LaTeX code voor symbolen in zowel 'problem' als 'answer'.\<newline>      - GEEN dollartekens ($) rondom de formules.\<newline>      - Gebruik '' @
           [0x5C] @
           str ''times voor keer, '' @
           [0x5C] @
           str ''frac{a}{b} voor breuken.\<newline>    ''
      else str ''\<newline>      NOTATIE (TEKST):\<newline>      - Gebruik GEEN LaTeX. Gewone tekst.\<newline>      - 'problem': De vraag/omschrijving die de leraar voorleest.\<newline>      - 'answer': Het KORTE antwoord (1-4 woorden).\<newline>    '')"

definition systemInstructionText :: "SubjectContext \<Rightarrow> nat \<Rightarrow> jsstring" where
  "systemInstructionText context count =
     str ''\<newline>    Je bent een docent voor het vak '' @
     subject context @
     str ''.\<newline>    Genereer output voor een Bingo spel.\<newline>    '' @
     formatInstruction context @
     str ''\<newline>    Variatie: Zorg voor minimaal '' @
     showNat count @
     str '' unieke antwoorden.\<newline>  ''"

definition userPromptText :: "jsstring \<Rightarrow> nat \<Rightarrow> jsstring option \<Rightarrow> mode \<Rightarrow> jsstring" where
  "userPromptText topicInput count imageBase64 mode =
     (if hasImage imageBase64 \<and> mode = exact then
        str ''Maak een lijst van PRECIES '' @
        showNat count @
        str '' items. EXTRACTIE: Neem inhoud EXACT over uit de afbeelding. Als er minder dan '' @
        showNat count @
        str '' items op de afbeelding staan, genereer dan ZELF extra items in dezelfde stijl om aan het totaal te komen.''
      else if hasImage imageBase64 \<and> mode = similar then
        str ''Genereer '' @
        showNat count @
        str '' NIEUWE unieke items die qua stijl en niveau lijken op de afbeelding.''
      else
        str ''Onderwerp: \"'' @
        topicInput @
        str ''\". Genereer precies '' @
        showNat count @
        str '' unieke items (vraag + antwoord).'')"

definition generateBingoItemsRequest ::
  "SubjectContext \<Rightarrow> jsstring \<Rightarrow> nat \<Rightarrow> jsstring option \<Rightarrow> mode \<Rightarrow> GenerateContentParameters"
where
  "generateBingoItemsRequest context topicInput count imageBase64 mode =
     \<lparr>model = str ''gemini-2.5-flash'',
      contents = imageParts imageBase64 @ [TextPart (userPromptText topicInput count imageBase64 mode)],
      config =
        \<lparr>systemInstruction = Some (systemInstructionText context count),
         responseMimeType = str ''application/json'',
         responseSchema =
           ObjectSchema
             [(str ''items'',
               ArraySchema
                 (ObjectSchema [(str ''problem'', StringSchema), (str ''answer'', StringSchema)]))]\<rparr>\<rparr>"

text \<open>
  The callback of \<^verbatim>\<open>itemsArray.map\<close>, applied from index \<open>index\<close> on; the first read
  that throws ends the loop.
\<close>

fun mapItems :: "(failure \<Rightarrow> jsstring) \<Rightarrow> nat \<Rightarrow> jsval list \<Rightarrow> js_error + BingoItem list" where
  "mapItems msg index [] = Inr []"
| "mapItems msg index (item # rest) =
     (case getProp msg item (str ''problem'') of
        Inl e \<Rightarrow> Inl e
      | Inr p \<Rightarrow>
          (case getProp msg item (str ''answer'') of
             Inl e \<Rightarrow> Inl e
           | Inr a \<Rightarrow>
               (case mapItems msg (Suc index) rest of
                  Inl e \<Rightarrow> Inl e
                | Inr items \<Rightarrow>
                    Inr (\<lparr>id' = str ''item-'' @ showNat index,
                          problem = orElse p (JString (str ''Fout'')),
                          answer = orElse a (JString (str ''Fout''))\<rparr> # items))))"

text \<open>
  From \<^verbatim>\<open>JSON.parse\<close> to the result: \<^verbatim>\<open>data.items || []\<close> (the parsed \<^verbatim>\<open>data\<close> is
  \<open>parsed\<close> here), then \<^verbatim>\<open>.map\<close>, which only an array has.
\<close>

definition itemsOf :: "(failure \<Rightarrow> jsstring) \<Rightarrow> jsval \<Rightarrow> js_error + BingoItem list" where
  "itemsOf msg parsed =
     (case getProp msg parsed (str ''items'') of
        Inl e \<Rightarrow> Inl e
      | Inr items \<Rightarrow>
          (case orElse items (JArray []) of
             JArray itemsArray \<Rightarrow> mapItems msg 0 itemsArray
           | _ \<Rightarrow> Inl (TypeError (msg (NotAFunction (str ''itemsArray.map''))))))"

definition generateBingoItems_try ::
  "environment \<Rightarrow> GoogleGenAI \<Rightarrow> SubjectContext \<Rightarrow> jsstring \<Rightarrow> nat \<Rightarrow> jsstring option \<Rightarrow> mode
     \<Rightarrow> js_error + BingoItem list"
where
  "generateBingoItems_try env ai context topicInput count imageBase64 mode =
     (case generateContent env ai
             (generateBingoItemsRequest context topicInput count imageBase64 mode) of
        Inl e \<Rightarrow> Inl e
      | Inr response \<Rightarrow>
          (let cleanText = cleanJSON (case text' response of None \<Rightarrow> [] | Some t \<Rightarrow> t)
           in if cleanText = [] then Inl (Error (str ''Geen tekst ontvangen van AI''))
              else (case JSON_parse (errorMessage env) cleanText of
                      Inl e \<Rightarrow> Inl e
                    | Inr parsed \<Rightarrow> itemsOf (errorMessage env) parsed)))"

text \<open>
  \<^verbatim>\<open>generateBingoItems\<close>; \<open>count\<close> is a natural number (it only enters the prompts),
  and an omitted \<open>mode\<close> is \<open>similar\<close>.
\<close>

definition generateBingoItems ::
  "environment \<Rightarrow> SubjectContext \<Rightarrow> jsstring \<Rightarrow> nat \<Rightarrow> jsstring option \<Rightarrow> mode
     \<Rightarrow> js_error + BingoItem list"
where
  "generateBingoItems env context topicInput count imageBase64 mode =
     (case getAIClient (API_KEY env) of
        Inl e \<Rightarrow> Inl e
      | Inr ai \<Rightarrow>
          (case generateBingoItems_try env ai context topicInput count imageBase64 mode of
             Inr items \<Rightarrow> Inr items
           | Inl error \<Rightarrow>
               if includes_str (message error) (str ''API Key'') then Inl error
               else Inl (Error (str ''Kon geen items genereren: '' @ message error))))"

section \<open>The second module\<close>

text \<open>
  The second module builds its client once, from the key as it is, and has no
  \<^verbatim>\<open>cleanJSON\<close>: it parses \<^verbatim>\<open>response.text\<close> itself. Its \<^verbatim>\<open>catch\<close> blocks look at no
  message. Requests and the mapping of the items are the first module's, line by line.
\<close>

definition ai_v2 :: "environment \<Rightarrow> GoogleGenAI" where
  "ai_v2 env = \<lparr>apiKey = API_KEY env\<rparr>"

definition detectSubject_v2_try ::
  "environment \<Rightarrow> jsstring \<Rightarrow> jsstring option \<Rightarrow> js_error + jsval"
where
  "detectSubject_v2_try env topic imageBase64 =
     (case generateContent env (ai_v2 env) (detectSubjectRequest topic imageBase64) of
        Inl e \<Rightarrow> Inl e
      | Inr response \<Rightarrow>
          (case text' response of
             None \<Rightarrow> Inl (Error (str ''Empty response from AI''))
           | Some t \<Rightarrow>
               if t \<noteq> [] then JSON_parse (errorMessage env) t
               else Inl (Error (str ''Empty response from AI''))))"

definition detectSubject_v2 :: "environment \<Rightarrow> jsstring \<Rightarrow> jsstring option \<Rightarrow> js_error + jsval" where
  "detectSubject_v2 env topic imageBase64 =
     (case detectSubject_v2_try env topic imageBase64 of
        Inr v \<Rightarrow> Inr v
      | Inl error \<Rightarrow>
          Inr (JObject [(str ''subject'', JString (str ''Algemeen'')),
                        (str ''isMath'', JBool False)]))"



section \<open>The shape of a data URL, and the continuations of the patterns\<close>

text \<open>
  The shape \<^verbatim>\<open>data:<mime>;base64,<payload>\<close> that \<open>dataUrlPattern\<close> accepts: a mime type
  and a payload that are not empty and hold no line terminator.
\<close>

definition dataUrlShape :: "jsstring \<Rightarrow> bool" where
  "dataUrlShape s \<longleftrightarrow>
     (\<exists>m p. s = str ''data:'' @ m @ str '';base64,'' @ p \<and> m \<noteq> [] \<and> p \<noteq> []
        \<and> (\<forall>c\<in>set (m @ p). \<not> isLineTerminator c))"

text \<open>
  What remains of a pattern after a repetition, as a function of the text the
  repetition took and of the input after it: of \<open>dataUrlPattern\<close> after its first
  group, of \<open>imagePrefixPattern\<close> after \<^verbatim>\<open>\w+\<close>, of \<open>closingFence\<close> after \<^verbatim>\<open>\s*\<close>.
\<close>

definition payloadMatch :: "jsstring \<Rightarrow> jsstring \<Rightarrow> (jsstring list \<times> jsstring) option" where
  "payloadMatch txt rest =
     (if txt \<noteq> [] \<and> prefix (str '';base64,'') rest \<and> drop 8 rest \<noteq> []
         \<and> (\<forall>c\<in>set (drop 8 rest). \<not> isLineTerminator c)
      then Some ([txt, drop 8 rest], []) else None)"

definition payloadAfterPrefix :: "jsstring \<Rightarrow> jsstring \<Rightarrow> (jsstring list \<times> jsstring) option" where
  "payloadAfterPrefix txt rest =
     (if txt \<noteq> [] \<and> prefix (str '';base64,'') rest then Some ([], drop 8 rest) else None)"

definition fenceEnd :: "jsstring \<Rightarrow> jsstring \<Rightarrow> (jsstring list \<times> jsstring) option" where
  "fenceEnd txt rest = (if rest = str ''```'' then Some ([], []) else None)"

section \<open>Example environments\<close>

text \<open>
  An engine that quotes the text in the message of its \<^verbatim>\<open>SyntaxError\<close>, as V8 (Chrome,
  Node.js) does for a short text whose first character starts no value:
  \<^verbatim>\<open>Unexpected token 'A', "API Key" is not valid JSON\<close>. Its \<^verbatim>\<open>TypeError\<close> messages are
  V8's. \<open>0x27\<close> is the single quote.
\<close>

definition quotingMessage :: "failure \<Rightarrow> jsstring" where
  "quotingMessage f =
     (case f of
        InvalidJSON t \<Rightarrow>
          (case t of
             [] \<Rightarrow> str ''Unexpected end of JSON input''
           | c # cs \<Rightarrow>
               str ''Unexpected token '' @ [0x27, c, 0x27] @ str '', \"'' @ t
                 @ str ''\" is not valid JSON'')
      | ReadProperty v name \<Rightarrow>
          str ''Cannot read properties of ''
            @ (if v = JNull then str ''null'' else str ''undefined'')
            @ str '' (reading '' @ [0x27] @ name @ [0x27] @ str '')''
      | NotAFunction callee \<Rightarrow> callee @ str '' is not a function'')"

text \<open>A valid key and a remote service that answers every request with \<open>reply\<close>.\<close>

definition replyEnv :: "jsstring option \<Rightarrow> environment" where
  "replyEnv reply =
     \<lparr>API_KEY = Some (str ''AIzaSyExampleKey''),
      generateContent = (\<lambda>ai request. Inr \<lparr>text' = reply\<rparr>),
      errorMessage = quotingMessage\<rparr>"

text \<open>A valid key and a remote service that rejects every request with \<open>e\<close>.\<close>

definition rejectEnv :: "js_error \<Rightarrow> environment" where
  "rejectEnv e =
     \<lparr>API_KEY = Some (str ''AIzaSyExampleKey''),
      generateContent = (\<lambda>ai request. Inl e),
      errorMessage = quotingMessage\<rparr>"

text \<open>Replies of the remote service used as examples, and the arrays they parse to.\<close>

definition fiveItemsReply :: jsstring where
  "fiveItemsReply = str ''{\"items\":[{\"problem\":\"1+1\",\"answer\":\"2\"},{\"problem\":\"2+2\",\"answer\":\"4\"},{\"problem\":\"3+3\",\"answer\":\"6\"},{\"problem\":\"4+4\",\"answer\":\"8\"},{\"problem\":\"5+5\",\"answer\":\"10\"}]}''"

definition fiveItems :: "jsval list" where
  "fiveItems =
     [JObject [(str ''problem'', JString (str ''1+1'')), (str ''answer'', JString (str ''2''))],
      JObject [(str ''problem'', JString (str ''2+2'')), (str ''answer'', JString (str ''4''))],
      JObject [(str ''problem'', JString (str ''3+3'')), (str ''answer'', JString (str ''6''))],
      JObject [(str ''problem'', JString (str ''4+4'')), (str ''answer'', JString (str ''8''))],
      JObject [(str ''problem'', JString (str ''5+5'')), (str ''answer'', JString (str ''10''))]]"

definition repairedReply :: jsstring where
  "repairedReply = str ''{\"items\":[{\"problem\":\"1+1\"},{\"answer\":\"4\"},{\"problem\":\"\",\"answer\":null},7]}''"

definition repairedItems :: "jsval list" where
  "repairedItems =
     [JObject [(str ''problem'', JString (str ''1+1''))],
      JObject [(str ''answer'', JString (str ''4''))],
      JObject [(str ''problem'', JString []), (str ''answer'', JNull)],
      JNumber (Decimal False 7 0)]"

section \<open>Properties\<close>

subsection \<open>Evaluation and the example environments\<close>

lemmas regex_eval = str_def ch_def isWhiteSpace_def isLineTerminator_def isWordChar_def exec_def
  replace_def match_def trim_def cleanJSON_def parseDataUrl_def openingJsonFence_def
  openingFence_def closingFence_def dataUrlPattern_def imagePrefixPattern_def
  greedy.simps matchAtom.simps matchPieces.simps search.simps

lemmas json_eval = parseValue.simps parseElements.simps parseMembers.simps parseScalar_def
  closing_def separator_def memberKey_def skipWs_def isJsonWs_def JSON_parse_def parseNumber_def
  intPart_def fracPart_def expPart_def isDigit_def Let_def unescape_def hex4_def hexVal_def

lemma str_Cons_nonempty [simp]: "str (c # cs) \<noteq> []"
  by (simp add: str_def)

lemma str_append: "str (a @ b) = str a @ str b"
  by (simp add: str_def)

lemma replyEnv_sel [simp]:
  "API_KEY (replyEnv reply) = Some (str ''AIzaSyExampleKey'')"
  "generateContent (replyEnv reply) ai request = Inr \<lparr>text' = reply\<rparr>"
  "errorMessage (replyEnv reply) = quotingMessage"
  by (simp_all add: replyEnv_def)

lemma rejectEnv_sel [simp]:
  "API_KEY (rejectEnv e) = Some (str ''AIzaSyExampleKey'')"
  "generateContent (rejectEnv e) ai request = Inl e"
  "errorMessage (rejectEnv e) = quotingMessage"
  by (simp_all add: rejectEnv_def)

lemma getAIClient_example:
  "getAIClient (Some (str ''AIzaSyExampleKey'')) = Inr \<lparr>apiKey = Some (str ''AIzaSyExampleKey'')\<rparr>"
  by (simp add: getAIClient_def str_def ch_def)
subsection \<open>The client factory\<close>

lemma includes_str_iff: "includes_str s t \<longleftrightarrow> (\<exists>p q. s = p @ t @ q)"
proof (induction s)
  case Nil
  then show ?case by auto
next
  case (Cons x xs)
  show ?case
  proof
    assume "includes_str (x # xs) t"
    then consider "prefix t (x # xs)" | "includes_str xs t" by auto
    then show "\<exists>p q. x # xs = p @ t @ q"
    proof cases
      case 1
      then obtain q where "x # xs = t @ q" by (auto simp: prefix_def)
      then have "x # xs = [] @ t @ q" by simp
      then show ?thesis by blast
    next
      case 2
      with Cons.IH obtain p q where "xs = p @ t @ q" by blast
      then have "x # xs = (x # p) @ t @ q" by simp
      then show ?thesis by blast
    qed
  next
    assume "\<exists>p q. x # xs = p @ t @ q"
    then obtain p q where pq: "x # xs = p @ t @ q" by blast
    show "includes_str (x # xs) t"
    proof (cases p)
      case Nil
      with pq have "prefix t (x # xs)" by (simp add: prefix_def)
      then show ?thesis by simp
    next
      case (Cons y ys)
      with pq have "xs = ys @ t @ q" by simp
      with Cons.IH have "includes_str xs t" by blast
      then show ?thesis by simp
    qed
  qed
qed

text \<open>
  C1. Client construction fails with the configuration error for every key that is
  missing (\<^verbatim>\<open>undefined\<close> or empty), that holds the placeholder text
  \<^verbatim>\<open>YOUR_API_KEY\<close> (the code's test for a placeholder value is containment), or that is
  the literal string \<^verbatim>\<open>undefined\<close>; for every other key it succeeds, and the client
  carries that key.
\<close>

theorem getAIClient_fails_iff_key_invalid:
  "getAIClient key =
     (if key = None \<or> key = Some [] \<or> key = Some (str ''undefined'')
         \<or> (\<exists>k p q. key = Some k \<and> k = p @ str ''YOUR_API_KEY'' @ q)
      then Inl (Error (str ''API Key ontbreekt of is ongeldig. Controleer Vercel instellingen.''))
      else Inr \<lparr>apiKey = key\<rparr>)"
  by (cases key) (auto simp: getAIClient_def includes_str_iff)

subsection \<open>Subject detection\<close>

lemma key_error_mentions_API_Key:
  "includes_str (str ''API Key ontbreekt of is ongeldig. Controleer Vercel instellingen.'') (str ''API Key'')"
  by (simp add: str_def ch_def)

lemma getAIClient_error:
  "getAIClient key = Inl e \<Longrightarrow>
     e = Error (str ''API Key ontbreekt of is ongeldig. Controleer Vercel instellingen.'')"
  by (auto simp: getAIClient_def split: option.splits if_splits)

lemma empty_reply_error_no_API_Key:
  "\<not> includes_str (str ''Geen antwoord van AI (Leeg)'') (str ''API Key'')"
  by (simp add: str_def ch_def)

lemma detectSubject_with_client:
  "getAIClient (API_KEY env) = Inr ai \<Longrightarrow>
     detectSubject env topic imageBase64 =
       (case detectSubject_try env ai topic imageBase64 of
          Inr v \<Rightarrow> Inr v
        | Inl error \<Rightarrow>
            if includes_str (message error) (str ''API Key'') then Inl error
            else Inr (JObject [(str ''subject'', JString (str ''Algemeen'')),
                               (str ''isMath'', JBool False)]))"
  by (simp add: detectSubject_def)

lemma detectSubject_try_rejected:
  "generateContent env ai (detectSubjectRequest topic imageBase64) = Inl e \<Longrightarrow>
     detectSubject_try env ai topic imageBase64 = Inl e"
  by (simp add: detectSubject_try_def)

lemma detectSubject_try_response:
  "generateContent env ai (detectSubjectRequest topic imageBase64) = Inr response \<Longrightarrow>
     detectSubject_try env ai topic imageBase64 =
       (if cleanJSON (case text' response of None \<Rightarrow> [] | Some t \<Rightarrow> t) \<noteq> []
        then JSON_parse (errorMessage env) (cleanJSON (case text' response of None \<Rightarrow> [] | Some t \<Rightarrow> t))
        else Inl (Error (str ''Geen antwoord van AI (Leeg)'')))"
  by (simp add: detectSubject_try_def Let_def)

text \<open>
  The \<^verbatim>\<open>catch\<close> block tells a key error from the others by the text of the message. So an
  error that \<^verbatim>\<open>detectSubject\<close> throws has \<^verbatim>\<open>API Key\<close> in its message, and with a valid key a
  failure of the remote call or of the parser whose message lacks that text gives
  \<^verbatim>\<open>{subject: "Algemeen", isMath: false}\<close>.
\<close>

theorem detectSubject_rethrows_only_API_Key_errors:
  "(\<forall>e. detectSubject env topic imageBase64 = Inl e \<longrightarrow> includes_str (message e) (str ''API Key''))
   \<and> (\<forall>ai e. getAIClient (API_KEY env) = Inr ai
          \<and> generateContent env ai (detectSubjectRequest topic imageBase64) = Inl e
          \<and> \<not> includes_str (message e) (str ''API Key'')
        \<longrightarrow> detectSubject env topic imageBase64 =
              Inr (JObject [(str ''subject'', JString (str ''Algemeen'')),
                            (str ''isMath'', JBool False)]))
   \<and> (\<forall>ai response e. getAIClient (API_KEY env) = Inr ai
          \<and> generateContent env ai (detectSubjectRequest topic imageBase64) = Inr response
          \<and> JSON_parse (errorMessage env)
                (cleanJSON (case text' response of None \<Rightarrow> [] | Some t \<Rightarrow> t)) = Inl e
          \<and> \<not> includes_str (message e) (str ''API Key'')
        \<longrightarrow> detectSubject env topic imageBase64 =
              Inr (JObject [(str ''subject'', JString (str ''Algemeen'')),
                            (str ''isMath'', JBool False)]))"
proof (intro conjI allI impI)
  fix e
  assume a: "detectSubject env topic imageBase64 = Inl e"
  show "includes_str (message e) (str ''API Key'')"
  proof (cases "getAIClient (API_KEY env)")
    case (Inl e')
    with a have "e = e'" by (simp add: detectSubject_def)
    with getAIClient_error [OF Inl] key_error_mentions_API_Key show ?thesis by simp
  next
    case (Inr ai)
    from a show ?thesis
      unfolding detectSubject_with_client [OF Inr]
      by (auto split: sum.splits if_splits)
  qed
next
  fix ai e
  assume "getAIClient (API_KEY env) = Inr ai
          \<and> generateContent env ai (detectSubjectRequest topic imageBase64) = Inl e
          \<and> \<not> includes_str (message e) (str ''API Key'')"
  then show "detectSubject env topic imageBase64 =
              Inr (JObject [(str ''subject'', JString (str ''Algemeen'')),
                            (str ''isMath'', JBool False)])"
    by (simp add: detectSubject_with_client detectSubject_try_rejected)
next
  fix ai response e
  assume "getAIClient (API_KEY env) = Inr ai
          \<and> generateContent env ai (detectSubjectRequest topic imageBase64) = Inr response
          \<and> JSON_parse (errorMessage env)
                (cleanJSON (case text' response of None \<Rightarrow> [] | Some t \<Rightarrow> t)) = Inl e
          \<and> \<not> includes_str (message e) (str ''API Key'')"
  then show "detectSubject env topic imageBase64 =
              Inr (JObject [(str ''subject'', JString (str ''Algemeen'')),
                            (str ''isMath'', JBool False)])"
    by (simp add: detectSubject_with_client detectSubject_try_response empty_reply_error_no_API_Key)
qed

text \<open>
  C4 (as amended). When the key validation fails, the configuration error reaches the
  caller. With a valid key, an error of the remote call or of the parser is thrown
  again when its message holds \<^verbatim>\<open>API Key\<close>; every other failure, an empty reply and a
  malformed one among them, is replaced by \<^verbatim>\<open>{subject: "Algemeen", isMath: false}\<close>.
\<close>

theorem detectSubject_error_policy:
  "(\<forall>e. getAIClient (API_KEY env) = Inl e \<longrightarrow>
        detectSubject env topic imageBase64 =
          Inl (Error (str ''API Key ontbreekt of is ongeldig. Controleer Vercel instellingen.'')))
   \<and> (\<forall>ai e. getAIClient (API_KEY env) = Inr ai
          \<and> generateContent env ai (detectSubjectRequest topic imageBase64) = Inl e
        \<longrightarrow> detectSubject env topic imageBase64 =
              (if includes_str (message e) (str ''API Key'') then Inl e
               else Inr (JObject [(str ''subject'', JString (str ''Algemeen'')),
                                  (str ''isMath'', JBool False)])))
   \<and> (\<forall>ai response. getAIClient (API_KEY env) = Inr ai
          \<and> generateContent env ai (detectSubjectRequest topic imageBase64) = Inr response
          \<and> cleanJSON (case text' response of None \<Rightarrow> [] | Some t \<Rightarrow> t) = []
        \<longrightarrow> detectSubject env topic imageBase64 =
              Inr (JObject [(str ''subject'', JString (str ''Algemeen'')),
                            (str ''isMath'', JBool False)]))
   \<and> (\<forall>ai response e. getAIClient (API_KEY env) = Inr ai
          \<and> generateContent env ai (detectSubjectRequest topic imageBase64) = Inr response
          \<and> cleanJSON (case text' response of None \<Rightarrow> [] | Some t \<Rightarrow> t) \<noteq> []
          \<and> JSON_parse (errorMessage env)
                (cleanJSON (case text' response of None \<Rightarrow> [] | Some t \<Rightarrow> t)) = Inl e
        \<longrightarrow> detectSubject env topic imageBase64 =
              (if includes_str (message e) (str ''API Key'') then Inl e
               else Inr (JObject [(str ''subject'', JString (str ''Algemeen'')),
                                  (str ''isMath'', JBool False)])))"
proof (intro conjI allI impI)
  fix e
  assume a: "getAIClient (API_KEY env) = Inl e"
  from getAIClient_error [OF a] a
  show "detectSubject env topic imageBase64 =
          Inl (Error (str ''API Key ontbreekt of is ongeldig. Controleer Vercel instellingen.''))"
    by (simp add: detectSubject_def)
next
  fix ai e
  assume "getAIClient (API_KEY env) = Inr ai
          \<and> generateContent env ai (detectSubjectRequest topic imageBase64) = Inl e"
  then show "detectSubject env topic imageBase64 =
              (if includes_str (message e) (str ''API Key'') then Inl e
               else Inr (JObject [(str ''subject'', JString (str ''Algemeen'')),
                                  (str ''isMath'', JBool False)]))"
    by (simp add: detectSubject_with_client detectSubject_try_rejected)
next
  fix ai response
  assume "getAIClient (API_KEY env) = Inr ai
          \<and> generateContent env ai (detectSubjectRequest topic imageBase64) = Inr response
          \<and> cleanJSON (case text' response of None \<Rightarrow> [] | Some t \<Rightarrow> t) = []"
  then show "detectSubject env topic imageBase64 =
              Inr (JObject [(str ''subject'', JString (str ''Algemeen'')),
                            (str ''isMath'', JBool False)])"
    by (simp add: detectSubject_with_client detectSubject_try_response empty_reply_error_no_API_Key)
next
  fix ai response e
  assume "getAIClient (API_KEY env) = Inr ai
          \<and> generateContent env ai (detectSubjectRequest topic imageBase64) = Inr response
          \<and> cleanJSON (case text' response of None \<Rightarrow> [] | Some t \<Rightarrow> t) \<noteq> []
          \<and> JSON_parse (errorMessage env)
                (cleanJSON (case text' response of None \<Rightarrow> [] | Some t \<Rightarrow> t)) = Inl e"
  then show "detectSubject env topic imageBase64 =
              (if includes_str (message e) (str ''API Key'') then Inl e
               else Inr (JObject [(str ''subject'', JString (str ''Algemeen'')),
                                  (str ''isMath'', JBool False)]))"
    by (simp add: detectSubject_with_client detectSubject_try_response)
qed

subsection \<open>Item generation\<close>

lemma no_text_error_no_API_Key:
  "\<not> includes_str (str ''Geen tekst ontvangen van AI'') (str ''API Key'')"
  by (simp add: str_def ch_def)

lemma generateBingoItems_with_client:
  "getAIClient (API_KEY env) = Inr ai \<Longrightarrow>
     generateBingoItems env context topicInput count imageBase64 mode =
       (case generateBingoItems_try env ai context topicInput count imageBase64 mode of
          Inr items \<Rightarrow> Inr items
        | Inl error \<Rightarrow>
            if includes_str (message error) (str ''API Key'') then Inl error
            else Inl (Error (str ''Kon geen items genereren: '' @ message error)))"
  by (simp add: generateBingoItems_def)

lemma generateBingoItems_try_response:
  "generateContent env ai (generateBingoItemsRequest context topicInput count imageBase64 mode)
       = Inr response \<Longrightarrow>
     generateBingoItems_try env ai context topicInput count imageBase64 mode =
       (if cleanJSON (case text' response of None \<Rightarrow> [] | Some t \<Rightarrow> t) = []
        then Inl (Error (str ''Geen tekst ontvangen van AI''))
        else (case JSON_parse (errorMessage env)
                     (cleanJSON (case text' response of None \<Rightarrow> [] | Some t \<Rightarrow> t)) of
                Inl e \<Rightarrow> Inl e
              | Inr parsed \<Rightarrow> itemsOf (errorMessage env) parsed))"
  by (simp add: generateBingoItems_try_def Let_def)

lemma JSON_parse_empty: "JSON_parse msg [] = Inl (SyntaxError (msg (InvalidJSON [])))"
  by (simp add: JSON_parse_def skipWs_def parseValue.simps)

lemma generateBingoItems_parsed:
  assumes "getAIClient (API_KEY env) = Inr ai"
    and "generateContent env ai (generateBingoItemsRequest context topicInput count imageBase64 mode)
           = Inr response"
    and "JSON_parse (errorMessage env)
           (cleanJSON (case text' response of None \<Rightarrow> [] | Some t \<Rightarrow> t)) = Inr parsed"
    and "itemsOf (errorMessage env) parsed = Inr items"
  shows "generateBingoItems env context topicInput count imageBase64 mode = Inr items"
proof -
  from assms(3) have "cleanJSON (case text' response of None \<Rightarrow> [] | Some t \<Rightarrow> t) \<noteq> []"
    by (auto simp: JSON_parse_empty)
  with assms show ?thesis
    by (simp add: generateBingoItems_with_client generateBingoItems_try_response)
qed

lemma itemsOf_array:
  "map_of props (str ''items'') = Some (JArray xs) \<Longrightarrow>
     itemsOf msg (JObject props) = mapItems msg 0 xs"
  by (simp add: itemsOf_def orElse_def)

lemma getProp_defined:
  "x \<noteq> JNull \<Longrightarrow> x \<noteq> JUndefined \<Longrightarrow> \<exists>v. getProp msg x name = Inr v"
  by (cases x) simp_all

lemma mapItems_no_null:
  "\<forall>x\<in>set xs. x \<noteq> JNull \<and> x \<noteq> JUndefined \<Longrightarrow>
     \<exists>items. mapItems msg k xs = Inr items \<and> length items = length xs
       \<and> (\<forall>i<length xs.
             id' (items ! i) = str ''item-'' @ showNat (k + i)
             \<and> (\<forall>p. getProp msg (xs ! i) (str ''problem'') = Inr p
                    \<longrightarrow> problem (items ! i) = orElse p (JString (str ''Fout'')))
             \<and> (\<forall>a. getProp msg (xs ! i) (str ''answer'') = Inr a
                    \<longrightarrow> answer (items ! i) = orElse a (JString (str ''Fout''))))"
proof (induction xs arbitrary: k)
  case Nil
  then show ?case by simp
next
  case (Cons x xs)
  from Cons.prems have x: "x \<noteq> JNull" "x \<noteq> JUndefined"
    and rest: "\<forall>y\<in>set xs. y \<noteq> JNull \<and> y \<noteq> JUndefined" by simp_all
  from getProp_defined [OF x] obtain p where p: "getProp msg x (str ''problem'') = Inr p" by blast
  from getProp_defined [OF x] obtain a where a: "getProp msg x (str ''answer'') = Inr a" by blast
  from Cons.IH [OF rest, of "Suc k"] obtain items where
    items: "mapItems msg (Suc k) xs = Inr items" "length items = length xs"
    and nth: "\<And>i. i < length xs \<Longrightarrow>
             id' (items ! i) = str ''item-'' @ showNat (Suc k + i)
             \<and> (\<forall>p. getProp msg (xs ! i) (str ''problem'') = Inr p
                    \<longrightarrow> problem (items ! i) = orElse p (JString (str ''Fout'')))
             \<and> (\<forall>a. getProp msg (xs ! i) (str ''answer'') = Inr a
                    \<longrightarrow> answer (items ! i) = orElse a (JString (str ''Fout'')))"
    by blast
  let ?item = "\<lparr>id' = str ''item-'' @ showNat k,
                problem = orElse p (JString (str ''Fout'')),
                answer = orElse a (JString (str ''Fout''))\<rparr>"
  have eq: "mapItems msg k (x # xs) = Inr (?item # items)"
    by (simp add: p a items)
  have "\<forall>i<length (x # xs).
             id' ((?item # items) ! i) = str ''item-'' @ showNat (k + i)
             \<and> (\<forall>p. getProp msg ((x # xs) ! i) (str ''problem'') = Inr p
                    \<longrightarrow> problem ((?item # items) ! i) = orElse p (JString (str ''Fout'')))
             \<and> (\<forall>a. getProp msg ((x # xs) ! i) (str ''answer'') = Inr a
                    \<longrightarrow> answer ((?item # items) ! i) = orElse a (JString (str ''Fout'')))"
  proof (intro allI impI)
    fix i assume i: "i < length (x # xs)"
    show "id' ((?item # items) ! i) = str ''item-'' @ showNat (k + i)
             \<and> (\<forall>p. getProp msg ((x # xs) ! i) (str ''problem'') = Inr p
                    \<longrightarrow> problem ((?item # items) ! i) = orElse p (JString (str ''Fout'')))
             \<and> (\<forall>a. getProp msg ((x # xs) ! i) (str ''answer'') = Inr a
                    \<longrightarrow> answer ((?item # items) ! i) = orElse a (JString (str ''Fout'')))"
    proof (cases i)
      case 0
      with p a show ?thesis by simp
    next
      case (Suc j)
      with i nth [of j] show ?thesis by simp
    qed
  qed
  with eq items(2) show ?case by simp
qed

lemma showNat_digits:
  "showNat 0 = str ''0''" "showNat 1 = str ''1''" "showNat 2 = str ''2''"
  "showNat 3 = str ''3''" "showNat 4 = str ''4''" "showNat (Suc 0) = str ''1''"
  by (simp_all add: showNat.simps str_def ch_def)

lemma Kon_geen_items_append:
  "str ''Kon geen items genereren: '' @ str ''Geen tekst ontvangen van AI''
     = str ''Kon geen items genereren: Geen tekst ontvangen van AI''"
  by (simp add: str_def)

text \<open>
  C5. A call with \<open>count = 5\<close> whose reply parses to an object with an \<^verbatim>\<open>items\<close> array
  of exactly five objects, each with a string \<^verbatim>\<open>problem\<close> and a string \<^verbatim>\<open>answer\<close>,
  returns five items with the ids \<^verbatim>\<open>item-0\<close> to \<^verbatim>\<open>item-4\<close>, the \<open>i\<close>-th made from the
  \<open>i\<close>-th element of the array (an empty string becomes \<^verbatim>\<open>Fout\<close>, see C10).
\<close>

theorem generateBingoItems_five_items:
  assumes key: "getAIClient (API_KEY env) = Inr ai"
    and remote: "generateContent env ai
                   (generateBingoItemsRequest context topicInput 5 imageBase64 mode) = Inr response"
    and parsed: "JSON_parse (errorMessage env)
                   (cleanJSON (case text' response of None \<Rightarrow> [] | Some t \<Rightarrow> t))
                 = Inr (JObject props)"
    and items: "map_of props (str ''items'') = Some (JArray xs)"
    and five: "length xs = 5"
    and wf: "\<forall>x\<in>set xs. \<exists>ps p a. x = JObject ps
               \<and> map_of ps (str ''problem'') = Some (JString p)
               \<and> map_of ps (str ''answer'') = Some (JString a)"
  shows "\<exists>items. generateBingoItems env context topicInput 5 imageBase64 mode = Inr items
           \<and> map id' items
               = [str ''item-0'', str ''item-1'', str ''item-2'', str ''item-3'', str ''item-4'']
           \<and> (\<forall>i<5. \<forall>ps p a. xs ! i = JObject ps
                  \<and> map_of ps (str ''problem'') = Some (JString p)
                  \<and> map_of ps (str ''answer'') = Some (JString a)
                \<longrightarrow> problem (items ! i) = (if p = [] then JString (str ''Fout'') else JString p)
                  \<and> answer (items ! i) = (if a = [] then JString (str ''Fout'') else JString a))"
proof -
  from wf have nn: "\<forall>x\<in>set xs. x \<noteq> JNull \<and> x \<noteq> JUndefined" by auto
  from mapItems_no_null [OF nn, of "errorMessage env" 0] obtain its where
    m: "mapItems (errorMessage env) 0 xs = Inr its" and len: "length its = length xs"
    and nth: "\<And>i. i < length xs \<Longrightarrow>
             id' (its ! i) = str ''item-'' @ showNat i
             \<and> (\<forall>p. getProp (errorMessage env) (xs ! i) (str ''problem'') = Inr p
                    \<longrightarrow> problem (its ! i) = orElse p (JString (str ''Fout'')))
             \<and> (\<forall>a. getProp (errorMessage env) (xs ! i) (str ''answer'') = Inr a
                    \<longrightarrow> answer (its ! i) = orElse a (JString (str ''Fout'')))"
    by auto
  from m items have "itemsOf (errorMessage env) (JObject props) = Inr its"
    by (simp add: itemsOf_array)
  from generateBingoItems_parsed [OF key remote parsed this]
  have res: "generateBingoItems env context topicInput 5 imageBase64 mode = Inr its" .
  from len five have l5: "length its = 5" by simp
  then obtain i0 i1 i2 i3 i4 where its: "its = [i0, i1, i2, i3, i4]"
    by (auto simp: length_Suc_conv eval_nat_numeral)
  from nth [of 0] nth [of 1] nth [of 2] nth [of 3] nth [of 4] five its
  have ids: "map id' its
               = [str ''item-0'', str ''item-1'', str ''item-2'', str ''item-3'', str ''item-4'']"
    by (simp add: showNat_digits str_append [symmetric])
  have fields: "\<forall>i<5. \<forall>ps p a. xs ! i = JObject ps
                  \<and> map_of ps (str ''problem'') = Some (JString p)
                  \<and> map_of ps (str ''answer'') = Some (JString a)
                \<longrightarrow> problem (its ! i) = (if p = [] then JString (str ''Fout'') else JString p)
                  \<and> answer (its ! i) = (if a = [] then JString (str ''Fout'') else JString a)"
  proof (intro allI impI)
    fix i ps p a
    assume i: "i < 5" and x: "xs ! i = JObject ps
                  \<and> map_of ps (str ''problem'') = Some (JString p)
                  \<and> map_of ps (str ''answer'') = Some (JString a)"
    from i five have "i < length xs" by simp
    from nth [OF this] x
    show "problem (its ! i) = (if p = [] then JString (str ''Fout'') else JString p)
                  \<and> answer (its ! i) = (if a = [] then JString (str ''Fout'') else JString a)"
      by (simp add: orElse_def)
  qed
  show ?thesis
    by (rule exI [of _ its], intro conjI) (rule res, rule ids, rule fields)
qed

lemma fiveItemsReply_raw:
  "JSON_parse quotingMessage fiveItemsReply = Inr (JObject [(str ''items'', JArray fiveItems)])"
  by (simp add: fiveItemsReply_def fiveItems_def json_eval str_def ch_def)

lemma fiveItemsReply_parse:
  "JSON_parse quotingMessage (cleanJSON fiveItemsReply) = Inr (JObject [(str ''items'', JArray fiveItems)])"
proof -
  have "cleanJSON fiveItemsReply = fiveItemsReply" by (simp add: fiveItemsReply_def regex_eval)
  with fiveItemsReply_raw show ?thesis by simp
qed

lemma repairedReply_parse:
  "JSON_parse quotingMessage (cleanJSON repairedReply) = Inr (JObject [(str ''items'', JArray repairedItems)])"
proof -
  have "cleanJSON repairedReply = repairedReply" by (simp add: repairedReply_def regex_eval)
  moreover have "JSON_parse quotingMessage repairedReply = Inr (JObject [(str ''items'', JArray repairedItems)])"
    by (simp add: repairedReply_def repairedItems_def json_eval str_def ch_def)
  ultimately show ?thesis by simp
qed

theorem generateBingoItems_five_items_witness:
  "getAIClient (API_KEY (replyEnv (Some fiveItemsReply))) = Inr \<lparr>apiKey = Some (str ''AIzaSyExampleKey'')\<rparr>
   \<and> JSON_parse (errorMessage (replyEnv (Some fiveItemsReply))) (cleanJSON fiveItemsReply)
       = Inr (JObject [(str ''items'', JArray fiveItems)])
   \<and> length fiveItems = 5
   \<and> (\<exists>items. generateBingoItems (replyEnv (Some fiveItemsReply))
                  \<lparr>subject = str ''Wiskunde'', isMath = True\<rparr> (str ''optellen'') 5 None similar
                = Inr items
           \<and> map id' items
               = [str ''item-0'', str ''item-1'', str ''item-2'', str ''item-3'', str ''item-4'']
           \<and> (\<forall>i<5. \<forall>ps p a. fiveItems ! i = JObject ps
                  \<and> map_of ps (str ''problem'') = Some (JString p)
                  \<and> map_of ps (str ''answer'') = Some (JString a)
                \<longrightarrow> problem (items ! i) = (if p = [] then JString (str ''Fout'') else JString p)
                  \<and> answer (items ! i) = (if a = [] then JString (str ''Fout'') else JString a)))"
proof -
  let ?env = "replyEnv (Some fiveItemsReply)"
  have key: "getAIClient (API_KEY ?env) = Inr \<lparr>apiKey = Some (str ''AIzaSyExampleKey'')\<rparr>"
    by (simp add: getAIClient_example)
  have remote: "generateContent ?env \<lparr>apiKey = Some (str ''AIzaSyExampleKey'')\<rparr>
                  (generateBingoItemsRequest \<lparr>subject = str ''Wiskunde'', isMath = True\<rparr>
                     (str ''optellen'') 5 None similar)
                = Inr \<lparr>text' = Some fiveItemsReply\<rparr>"
    by simp
  have parsed: "JSON_parse (errorMessage ?env)
                  (cleanJSON (case text' \<lparr>text' = Some fiveItemsReply\<rparr> of None \<Rightarrow> [] | Some t \<Rightarrow> t))
                = Inr (JObject [(str ''items'', JArray fiveItems)])"
    by (simp add: fiveItemsReply_parse)
  have items: "map_of [(str ''items'', JArray fiveItems)] (str ''items'') = Some (JArray fiveItems)"
    by simp
  have five: "length fiveItems = 5" by (simp add: fiveItems_def)
  have wf: "\<forall>x\<in>set fiveItems. \<exists>ps p a. x = JObject ps
               \<and> map_of ps (str ''problem'') = Some (JString p)
               \<and> map_of ps (str ''answer'') = Some (JString a)"
    by (simp add: fiveItems_def str_def ch_def)
  from generateBingoItems_five_items [OF key remote parsed items five wf] key parsed five
  show ?thesis by simp
qed

lemma generateBingoItems_items:
  assumes key: "getAIClient (API_KEY env) = Inr ai"
    and remote: "generateContent env ai
                   (generateBingoItemsRequest context topicInput count imageBase64 mode) = Inr response"
    and parsed: "JSON_parse (errorMessage env)
                   (cleanJSON (case text' response of None \<Rightarrow> [] | Some t \<Rightarrow> t))
                 = Inr (JObject props)"
    and items: "map_of props (str ''items'') = Some (JArray xs)"
    and nn: "\<forall>x\<in>set xs. x \<noteq> JNull \<and> x \<noteq> JUndefined"
  shows "\<exists>items. generateBingoItems env context topicInput count imageBase64 mode = Inr items
           \<and> length items = length xs
           \<and> (\<forall>i<length xs.
                 id' (items ! i) = str ''item-'' @ showNat i
                 \<and> (\<forall>p. getProp (errorMessage env) (xs ! i) (str ''problem'') = Inr p
                        \<longrightarrow> problem (items ! i) = orElse p (JString (str ''Fout'')))
                 \<and> (\<forall>a. getProp (errorMessage env) (xs ! i) (str ''answer'') = Inr a
                        \<longrightarrow> answer (items ! i) = orElse a (JString (str ''Fout''))))"
proof -
  from mapItems_no_null [OF nn, of "errorMessage env" 0] obtain its where
    m: "mapItems (errorMessage env) 0 xs = Inr its" and len: "length its = length xs"
    and nth: "\<forall>i<length xs.
             id' (its ! i) = str ''item-'' @ showNat (0 + i)
             \<and> (\<forall>p. getProp (errorMessage env) (xs ! i) (str ''problem'') = Inr p
                    \<longrightarrow> problem (its ! i) = orElse p (JString (str ''Fout'')))
             \<and> (\<forall>a. getProp (errorMessage env) (xs ! i) (str ''answer'') = Inr a
                    \<longrightarrow> answer (its ! i) = orElse a (JString (str ''Fout'')))"
    by blast
  from m items have "itemsOf (errorMessage env) (JObject props) = Inr its"
    by (simp add: itemsOf_array)
  from generateBingoItems_parsed [OF key remote parsed this] len nth
  show ?thesis by simp
qed

text \<open>
  C6. When the reply parses to an object with an \<^verbatim>\<open>items\<close> array without \<^verbatim>\<open>null\<close>, the
  call returns one item per element; an element that is an object without \<^verbatim>\<open>problem\<close>
  (without \<^verbatim>\<open>answer\<close>) gives an item whose \<^verbatim>\<open>problem\<close> (\<^verbatim>\<open>answer\<close>) is \<^verbatim>\<open>Fout\<close>, and every
  truthy field of every element is kept as it is.
\<close>

theorem generateBingoItems_missing_field_is_Fout:
  assumes key: "getAIClient (API_KEY env) = Inr ai"
    and remote: "generateContent env ai
                   (generateBingoItemsRequest context topicInput count imageBase64 mode) = Inr response"
    and parsed: "JSON_parse (errorMessage env)
                   (cleanJSON (case text' response of None \<Rightarrow> [] | Some t \<Rightarrow> t))
                 = Inr (JObject props)"
    and items: "map_of props (str ''items'') = Some (JArray xs)"
    and nn: "\<forall>x\<in>set xs. x \<noteq> JNull \<and> x \<noteq> JUndefined"
  shows "\<exists>items. generateBingoItems env context topicInput count imageBase64 mode = Inr items
           \<and> length items = length xs
           \<and> (\<forall>i<length xs. \<forall>ps. xs ! i = JObject ps \<longrightarrow>
                 (map_of ps (str ''problem'') = None
                    \<longrightarrow> problem (items ! i) = JString (str ''Fout''))
                 \<and> (map_of ps (str ''answer'') = None
                    \<longrightarrow> answer (items ! i) = JString (str ''Fout''))
                 \<and> (\<forall>v. map_of ps (str ''problem'') = Some v \<and> truthy v
                    \<longrightarrow> problem (items ! i) = v)
                 \<and> (\<forall>v. map_of ps (str ''answer'') = Some v \<and> truthy v
                    \<longrightarrow> answer (items ! i) = v))"
proof -
  from generateBingoItems_items [OF key remote parsed items nn] obtain its where
    res: "generateBingoItems env context topicInput count imageBase64 mode = Inr its"
    and len: "length its = length xs"
    and nth: "\<And>i. i < length xs \<Longrightarrow>
                 (\<forall>p. getProp (errorMessage env) (xs ! i) (str ''problem'') = Inr p
                        \<longrightarrow> problem (its ! i) = orElse p (JString (str ''Fout'')))
                 \<and> (\<forall>a. getProp (errorMessage env) (xs ! i) (str ''answer'') = Inr a
                        \<longrightarrow> answer (its ! i) = orElse a (JString (str ''Fout'')))"
    by blast
  have fields: "\<forall>i<length xs. \<forall>ps. xs ! i = JObject ps \<longrightarrow>
                 (map_of ps (str ''problem'') = None
                    \<longrightarrow> problem (its ! i) = JString (str ''Fout''))
                 \<and> (map_of ps (str ''answer'') = None
                    \<longrightarrow> answer (its ! i) = JString (str ''Fout''))
                 \<and> (\<forall>v. map_of ps (str ''problem'') = Some v \<and> truthy v
                    \<longrightarrow> problem (its ! i) = v)
                 \<and> (\<forall>v. map_of ps (str ''answer'') = Some v \<and> truthy v
                    \<longrightarrow> answer (its ! i) = v)"
  proof (intro allI impI)
    fix i ps
    assume i: "i < length xs" and x: "xs ! i = JObject ps"
    from nth [OF i] x
    show "(map_of ps (str ''problem'') = None
                    \<longrightarrow> problem (its ! i) = JString (str ''Fout''))
                 \<and> (map_of ps (str ''answer'') = None
                    \<longrightarrow> answer (its ! i) = JString (str ''Fout''))
                 \<and> (\<forall>v. map_of ps (str ''problem'') = Some v \<and> truthy v
                    \<longrightarrow> problem (its ! i) = v)
                 \<and> (\<forall>v. map_of ps (str ''answer'') = Some v \<and> truthy v
                    \<longrightarrow> answer (its ! i) = v)"
      by (simp add: orElse_def)
  qed
  show ?thesis
    by (rule exI [of _ its], intro conjI) (rule res, rule len, rule fields)
qed

text \<open>
  C10. The empty string, \<^verbatim>\<open>null\<close>, \<^verbatim>\<open>false\<close> and \<open>0\<close> are falsy, and a \<^verbatim>\<open>problem\<close> or
  \<^verbatim>\<open>answer\<close> that is present with a falsy value is replaced by \<^verbatim>\<open>Fout\<close>.
\<close>

theorem generateBingoItems_falsy_field_is_Fout:
  assumes key: "getAIClient (API_KEY env) = Inr ai"
    and remote: "generateContent env ai
                   (generateBingoItemsRequest context topicInput count imageBase64 mode) = Inr response"
    and parsed: "JSON_parse (errorMessage env)
                   (cleanJSON (case text' response of None \<Rightarrow> [] | Some t \<Rightarrow> t))
                 = Inr (JObject props)"
    and items: "map_of props (str ''items'') = Some (JArray xs)"
    and nn: "\<forall>x\<in>set xs. x \<noteq> JNull \<and> x \<noteq> JUndefined"
  shows "\<not> truthy (JString []) \<and> \<not> truthy JNull \<and> \<not> truthy (JBool False)
           \<and> \<not> truthy (JNumber (Decimal False 0 0))
           \<and> (\<exists>items. generateBingoItems env context topicInput count imageBase64 mode = Inr items
                 \<and> length items = length xs
                 \<and> (\<forall>i<length xs. \<forall>ps v. xs ! i = JObject ps \<and> \<not> truthy v \<longrightarrow>
                       (map_of ps (str ''problem'') = Some v
                          \<longrightarrow> problem (items ! i) = JString (str ''Fout''))
                       \<and> (map_of ps (str ''answer'') = Some v
                          \<longrightarrow> answer (items ! i) = JString (str ''Fout''))))"
proof -
  from generateBingoItems_items [OF key remote parsed items nn] obtain its where
    res: "generateBingoItems env context topicInput count imageBase64 mode = Inr its"
    and len: "length its = length xs"
    and nth: "\<And>i. i < length xs \<Longrightarrow>
                 (\<forall>p. getProp (errorMessage env) (xs ! i) (str ''problem'') = Inr p
                        \<longrightarrow> problem (its ! i) = orElse p (JString (str ''Fout'')))
                 \<and> (\<forall>a. getProp (errorMessage env) (xs ! i) (str ''answer'') = Inr a
                        \<longrightarrow> answer (its ! i) = orElse a (JString (str ''Fout'')))"
    by blast
  have fields: "\<forall>i<length xs. \<forall>ps v. xs ! i = JObject ps \<and> \<not> truthy v \<longrightarrow>
                       (map_of ps (str ''problem'') = Some v
                          \<longrightarrow> problem (its ! i) = JString (str ''Fout''))
                       \<and> (map_of ps (str ''answer'') = Some v
                          \<longrightarrow> answer (its ! i) = JString (str ''Fout''))"
  proof (intro allI impI)
    fix i ps v
    assume i: "i < length xs" and x: "xs ! i = JObject ps \<and> \<not> truthy v"
    from nth [OF i] x
    show "(map_of ps (str ''problem'') = Some v
                          \<longrightarrow> problem (its ! i) = JString (str ''Fout''))
                       \<and> (map_of ps (str ''answer'') = Some v
                          \<longrightarrow> answer (its ! i) = JString (str ''Fout''))"
      by (simp add: orElse_def)
  qed
  have ex: "\<exists>items. generateBingoItems env context topicInput count imageBase64 mode = Inr items
                 \<and> length items = length xs
                 \<and> (\<forall>i<length xs. \<forall>ps v. xs ! i = JObject ps \<and> \<not> truthy v \<longrightarrow>
                       (map_of ps (str ''problem'') = Some v
                          \<longrightarrow> problem (items ! i) = JString (str ''Fout''))
                       \<and> (map_of ps (str ''answer'') = Some v
                          \<longrightarrow> answer (items ! i) = JString (str ''Fout'')))"
    by (rule exI [of _ its], intro conjI) (rule res, rule len, rule fields)
  then show ?thesis by simp
qed

text \<open>
  C2 (as amended). With a valid key and a response of the remote service: an empty
  reply (no text, or text that \<^verbatim>\<open>cleanJSON\<close> empties) fails with the error
  \<^verbatim>\<open>Kon geen items genereren: Geen tekst ontvangen van AI\<close>; a reply that does not parse
  fails with \<^verbatim>\<open>Kon geen items genereren: \<close> and the parser's message, or with the
  parser's own error when its message holds \<^verbatim>\<open>API Key\<close>. No list is returned for such
  a reply. (A reply that parses can give the empty list.)
\<close>

theorem generateBingoItems_empty_or_unparsable_reply:
  assumes key: "getAIClient (API_KEY env) = Inr ai"
    and remote: "generateContent env ai
                   (generateBingoItemsRequest context topicInput count imageBase64 mode) = Inr response"
  shows "(cleanJSON (case text' response of None \<Rightarrow> [] | Some t \<Rightarrow> t) = [] \<longrightarrow>
            generateBingoItems env context topicInput count imageBase64 mode
              = Inl (Error (str ''Kon geen items genereren: Geen tekst ontvangen van AI'')))
         \<and> (\<forall>e. cleanJSON (case text' response of None \<Rightarrow> [] | Some t \<Rightarrow> t) \<noteq> []
              \<and> JSON_parse (errorMessage env)
                   (cleanJSON (case text' response of None \<Rightarrow> [] | Some t \<Rightarrow> t)) = Inl e
              \<longrightarrow> generateBingoItems env context topicInput count imageBase64 mode
                    = (if includes_str (message e) (str ''API Key'') then Inl e
                       else Inl (Error (str ''Kon geen items genereren: '' @ message e))))"
  using key remote
  by (simp add: generateBingoItems_with_client generateBingoItems_try_response
      no_text_error_no_API_Key Kon_geen_items_append)

lemma not_json_clean: "cleanJSON (str ''not json'') = str ''not json''"
  by (simp add: regex_eval)

lemma not_json_parse:
  "JSON_parse quotingMessage (str ''not json'')
     = Inl (SyntaxError (str ''Unexpected token 'n', \"not json\" is not valid JSON''))"
  by (simp add: json_eval quotingMessage_def str_def ch_def)

lemma not_json_message_no_API_Key:
  "\<not> includes_str (str ''Unexpected token 'n', \"not json\" is not valid JSON'') (str ''API Key'')"
  by (simp add: str_def ch_def)

lemma API_Key_clean: "cleanJSON (str ''API Key'') = str ''API Key''"
  by (simp add: regex_eval)

lemma API_Key_parse:
  "JSON_parse quotingMessage (str ''API Key'')
     = Inl (SyntaxError (str ''Unexpected token 'A', \"API Key\" is not valid JSON''))"
  by (simp add: json_eval quotingMessage_def str_def ch_def)

lemma API_Key_message_has_API_Key:
  "includes_str (str ''Unexpected token 'A', \"API Key\" is not valid JSON'') (str ''API Key'')"
  by (simp add: str_def ch_def)

lemma fetch_failed_no_API_Key: "\<not> includes_str (str ''fetch failed'') (str ''API Key'')"
  by (simp add: str_def ch_def)

lemma cleanJSON_empty: "cleanJSON [] = []"
  by (simp add: cleanJSON_def)

theorem generateBingoItems_empty_or_unparsable_reply_witness:
  "getAIClient (API_KEY (replyEnv (Some (str ''not json''))))
     = Inr \<lparr>apiKey = Some (str ''AIzaSyExampleKey'')\<rparr>
   \<and> cleanJSON (str ''not json'') \<noteq> []
   \<and> JSON_parse quotingMessage (cleanJSON (str ''not json''))
       = Inl (SyntaxError (str ''Unexpected token 'n', \"not json\" is not valid JSON''))
   \<and> generateBingoItems (replyEnv (Some (str ''not json'')))
         \<lparr>subject = str ''Wiskunde'', isMath = True\<rparr> (str ''breuken'') 5 None similar
       = Inl (Error (str ''Kon geen items genereren: ''
                      @ str ''Unexpected token 'n', \"not json\" is not valid JSON''))
   \<and> cleanJSON [] = []
   \<and> generateBingoItems (replyEnv None)
         \<lparr>subject = str ''Wiskunde'', isMath = True\<rparr> (str ''breuken'') 5 None similar
       = Inl (Error (str ''Kon geen items genereren: Geen tekst ontvangen van AI''))"
proof -
  let ?ai = "\<lparr>apiKey = Some (str ''AIzaSyExampleKey'')\<rparr>"
  let ?ctx = "\<lparr>subject = str ''Wiskunde'', isMath = True\<rparr>"
  have key: "\<And>r. getAIClient (API_KEY (replyEnv r)) = Inr ?ai"
    by (simp add: getAIClient_example)
  have remote: "\<And>r. generateContent (replyEnv r) ?ai
                  (generateBingoItemsRequest ?ctx (str ''breuken'') 5 None similar)
                = Inr \<lparr>text' = r\<rparr>"
    by simp
  from generateBingoItems_empty_or_unparsable_reply [OF key remote, of "Some (str ''not json'')"]
    generateBingoItems_empty_or_unparsable_reply [OF key remote, of None]
    key [of "Some (str ''not json'')"]
  show ?thesis
    by (simp add: not_json_clean not_json_parse not_json_message_no_API_Key cleanJSON_empty)
qed

text \<open>
  C2, the claim as stated fails: the reply \<^verbatim>\<open>{}\<close> is neither empty nor unparsable, and
  the call returns the empty list.
\<close>

theorem generateBingoItems_returns_empty_list:
  "cleanJSON (str ''{}'') \<noteq> []
   \<and> JSON_parse quotingMessage (cleanJSON (str ''{}'')) = Inr (JObject [])
   \<and> generateBingoItems (replyEnv (Some (str ''{}'')))
        \<lparr>subject = str ''Wiskunde'', isMath = True\<rparr> (str ''breuken'') 5 None similar
      = Inr []"
proof -
  have 1: "cleanJSON (str ''{}'') = str ''{}''" by (simp add: regex_eval)
  have 2: "JSON_parse quotingMessage (str ''{}'') = Inr (JObject [])"
    by (simp add: json_eval str_def ch_def)
  show ?thesis
    by (simp add: generateBingoItems_def generateBingoItems_try_def getAIClient_example 1 2
        itemsOf_def orElse_def)
qed

theorem detectSubject_rethrows_only_API_Key_errors_witness:
  "detectSubject (replyEnv (Some (str ''API Key''))) [] None
     = Inl (SyntaxError (str ''Unexpected token 'A', \"API Key\" is not valid JSON''))
   \<and> includes_str
        (message (SyntaxError (str ''Unexpected token 'A', \"API Key\" is not valid JSON'')))
        (str ''API Key'')
   \<and> getAIClient (API_KEY (rejectEnv (Error (str ''fetch failed''))))
       = Inr \<lparr>apiKey = Some (str ''AIzaSyExampleKey'')\<rparr>
   \<and> \<not> includes_str (message (Error (str ''fetch failed''))) (str ''API Key'')
   \<and> detectSubject (rejectEnv (Error (str ''fetch failed''))) [] None
       = Inr (JObject [(str ''subject'', JString (str ''Algemeen'')), (str ''isMath'', JBool False)])
   \<and> JSON_parse quotingMessage (cleanJSON (str ''not json''))
       = Inl (SyntaxError (str ''Unexpected token 'n', \"not json\" is not valid JSON''))
   \<and> detectSubject (replyEnv (Some (str ''not json''))) [] None
       = Inr (JObject [(str ''subject'', JString (str ''Algemeen'')), (str ''isMath'', JBool False)])"
proof -
  let ?ai = "\<lparr>apiKey = Some (str ''AIzaSyExampleKey'')\<rparr>"
  have thrown: "detectSubject (replyEnv (Some (str ''API Key''))) [] None
     = Inl (SyntaxError (str ''Unexpected token 'A', \"API Key\" is not valid JSON''))"
    by (simp add: detectSubject_def detectSubject_try_def getAIClient_example API_Key_clean
        API_Key_parse API_Key_message_has_API_Key)
  have key1: "getAIClient (API_KEY (rejectEnv (Error (str ''fetch failed'')))) = Inr ?ai"
    by (simp add: getAIClient_example)
  have key2: "getAIClient (API_KEY (replyEnv (Some (str ''not json'')))) = Inr ?ai"
    by (simp add: getAIClient_example)
  have parse: "JSON_parse (errorMessage (replyEnv (Some (str ''not json''))))
                 (cleanJSON (case text' \<lparr>text' = Some (str ''not json'')\<rparr> of
                               None \<Rightarrow> [] | Some t \<Rightarrow> t))
       = Inl (SyntaxError (str ''Unexpected token 'n', \"not json\" is not valid JSON''))"
    by (simp add: not_json_clean not_json_parse)
  note t1 = detectSubject_rethrows_only_API_Key_errors
              [of "replyEnv (Some (str ''API Key''))" "[]" None, THEN conjunct1, rule_format, OF thrown]
  note t2 = detectSubject_rethrows_only_API_Key_errors
              [of "rejectEnv (Error (str ''fetch failed''))" "[]" None,
               THEN conjunct2, THEN conjunct1, rule_format,
               of ?ai "Error (str ''fetch failed'')"]
  note t3 = detectSubject_rethrows_only_API_Key_errors
              [of "replyEnv (Some (str ''not json''))" "[]" None,
               THEN conjunct2, THEN conjunct2, rule_format,
               of ?ai "\<lparr>text' = Some (str ''not json'')\<rparr>"
                  "SyntaxError (str ''Unexpected token 'n', \"not json\" is not valid JSON'')"]
  have r2: "detectSubject (rejectEnv (Error (str ''fetch failed''))) [] None
       = Inr (JObject [(str ''subject'', JString (str ''Algemeen'')), (str ''isMath'', JBool False)])"
    by (rule t2) (simp add: getAIClient_example fetch_failed_no_API_Key)
  have r3: "detectSubject (replyEnv (Some (str ''not json''))) [] None
       = Inr (JObject [(str ''subject'', JString (str ''Algemeen'')), (str ''isMath'', JBool False)])"
    by (rule t3) (simp add: getAIClient_example not_json_clean not_json_parse not_json_message_no_API_Key)
  from thrown t1 key1 r2 r3 show ?thesis
    by (simp add: fetch_failed_no_API_Key not_json_clean not_json_parse)
qed

text \<open>
  C3. \<^verbatim>\<open>detectSubject("", null)\<close> is to throw no parse error and to return
  \<^verbatim>\<open>{subject: "Algemeen", isMath: false}\<close> on every failure but a key error. The code breaks
  this where the message of a parse error holds the text \<^verbatim>\<open>API Key\<close>: with a valid key and
  the reply \<^verbatim>\<open>API Key\<close>, on an engine that quotes the text in its message, the first module
  throws the \<^verbatim>\<open>SyntaxError\<close> of \<^verbatim>\<open>JSON.parse\<close> (its \<^verbatim>\<open>catch\<close> takes it for a key error), while
  the second module returns the default.
\<close>

theorem detectSubject_throws_parse_error:
  "getAIClient (API_KEY (replyEnv (Some (str ''API Key''))))
     = Inr \<lparr>apiKey = Some (str ''AIzaSyExampleKey'')\<rparr>
   \<and> detectSubject (replyEnv (Some (str ''API Key''))) [] None
     = Inl (SyntaxError (str ''Unexpected token 'A', \"API Key\" is not valid JSON''))
   \<and> detectSubject_v2 (replyEnv (Some (str ''API Key''))) [] None
     = Inr (JObject [(str ''subject'', JString (str ''Algemeen'')), (str ''isMath'', JBool False)])"
proof -
  have first: "detectSubject (replyEnv (Some (str ''API Key''))) [] None
     = Inl (SyntaxError (str ''Unexpected token 'A', \"API Key\" is not valid JSON''))"
    by (simp add: detectSubject_def detectSubject_try_def getAIClient_example API_Key_clean
        API_Key_parse API_Key_message_has_API_Key)
  have second: "detectSubject_v2 (replyEnv (Some (str ''API Key''))) [] None
     = Inr (JObject [(str ''subject'', JString (str ''Algemeen'')), (str ''isMath'', JBool False)])"
    by (simp add: detectSubject_v2_def detectSubject_v2_try_def API_Key_parse)
  have key: "getAIClient (API_KEY (replyEnv (Some (str ''API Key''))))
     = Inr \<lparr>apiKey = Some (str ''AIzaSyExampleKey'')\<rparr>"
    by (simp add: getAIClient_example)
  show ?thesis by (intro conjI key first second)
qed

text \<open>
  C4, the claim as stated fails: an empty reply throws nothing, and the default value
  names the subject \<^verbatim>\<open>Algemeen\<close>, not \<^verbatim>\<open>General\<close>.
\<close>

theorem detectSubject_empty_reply_is_Algemeen:
  "detectSubject (replyEnv None) [] None
     = Inr (JObject [(str ''subject'', JString (str ''Algemeen'')), (str ''isMath'', JBool False)])
   \<and> JObject [(str ''subject'', JString (str ''Algemeen'')), (str ''isMath'', JBool False)]
       \<noteq> JObject [(str ''subject'', JString (str ''General'')), (str ''isMath'', JBool False)]"
proof -
  have "str ''Algemeen'' \<noteq> str ''General''" by (simp add: str_def ch_def)
  then show ?thesis
    by (simp add: detectSubject_def detectSubject_try_def getAIClient_example cleanJSON_empty
        empty_reply_error_no_API_Key)
qed

theorem detectSubject_error_policy_witness:
  "getAIClient (API_KEY ((replyEnv None)\<lparr>API_KEY := None\<rparr>))
     = Inl (Error (str ''API Key ontbreekt of is ongeldig. Controleer Vercel instellingen.''))
   \<and> detectSubject ((replyEnv None)\<lparr>API_KEY := None\<rparr>) [] None
       = Inl (Error (str ''API Key ontbreekt of is ongeldig. Controleer Vercel instellingen.''))
   \<and> getAIClient (API_KEY (rejectEnv (Error (str ''fetch failed''))))
       = Inr \<lparr>apiKey = Some (str ''AIzaSyExampleKey'')\<rparr>
   \<and> detectSubject (rejectEnv (Error (str ''fetch failed''))) [] None
       = Inr (JObject [(str ''subject'', JString (str ''Algemeen'')), (str ''isMath'', JBool False)])
   \<and> cleanJSON [] = []
   \<and> detectSubject (replyEnv None) [] None
       = Inr (JObject [(str ''subject'', JString (str ''Algemeen'')), (str ''isMath'', JBool False)])
   \<and> cleanJSON (str ''not json'') \<noteq> []
   \<and> JSON_parse quotingMessage (cleanJSON (str ''not json''))
       = Inl (SyntaxError (str ''Unexpected token 'n', \"not json\" is not valid JSON''))
   \<and> detectSubject (replyEnv (Some (str ''not json''))) [] None
       = Inr (JObject [(str ''subject'', JString (str ''Algemeen'')), (str ''isMath'', JBool False)])"
proof -
  let ?ai = "\<lparr>apiKey = Some (str ''AIzaSyExampleKey'')\<rparr>"
  let ?nokey = "(replyEnv None)\<lparr>API_KEY := None\<rparr>"
  have nokey: "getAIClient (API_KEY ?nokey)
     = Inl (Error (str ''API Key ontbreekt of is ongeldig. Controleer Vercel instellingen.''))"
    by (simp add: getAIClient_def)
  have key: "\<And>r. getAIClient (API_KEY (replyEnv r)) = Inr ?ai"
    by (simp add: getAIClient_example)
  have key1: "getAIClient (API_KEY (rejectEnv (Error (str ''fetch failed'')))) = Inr ?ai"
    by (simp add: getAIClient_example)
  note p = detectSubject_error_policy
  have a: "detectSubject ?nokey [] None
       = Inl (Error (str ''API Key ontbreekt of is ongeldig. Controleer Vercel instellingen.''))"
    by (rule p [of ?nokey "[]" None, THEN conjunct1, rule_format]) (rule nokey)
  have b: "detectSubject (rejectEnv (Error (str ''fetch failed''))) [] None
       = Inr (JObject [(str ''subject'', JString (str ''Algemeen'')), (str ''isMath'', JBool False)])"
    using p [of "rejectEnv (Error (str ''fetch failed''))" "[]" None,
             THEN conjunct2, THEN conjunct1, rule_format, of ?ai "Error (str ''fetch failed'')"]
    by (simp add: getAIClient_example fetch_failed_no_API_Key)
  have c: "detectSubject (replyEnv None) [] None
       = Inr (JObject [(str ''subject'', JString (str ''Algemeen'')), (str ''isMath'', JBool False)])"
    using p [of "replyEnv None" "[]" None,
             THEN conjunct2, THEN conjunct2, THEN conjunct1, rule_format, of ?ai "\<lparr>text' = None\<rparr>"]
    by (simp add: getAIClient_example cleanJSON_empty)
  have d: "detectSubject (replyEnv (Some (str ''not json''))) [] None
       = Inr (JObject [(str ''subject'', JString (str ''Algemeen'')), (str ''isMath'', JBool False)])"
    using p [of "replyEnv (Some (str ''not json''))" "[]" None,
             THEN conjunct2, THEN conjunct2, THEN conjunct2, rule_format,
             of ?ai "\<lparr>text' = Some (str ''not json'')\<rparr>"
                "SyntaxError (str ''Unexpected token 'n', \"not json\" is not valid JSON'')"]
    by (simp add: getAIClient_example not_json_clean not_json_parse not_json_message_no_API_Key)
  from nokey a key1 b c d show ?thesis
    by (simp add: cleanJSON_empty not_json_clean not_json_parse)
qed

lemma repairedEnv_facts:
  "getAIClient (API_KEY (replyEnv (Some repairedReply)))
     = Inr \<lparr>apiKey = Some (str ''AIzaSyExampleKey'')\<rparr>"
  "generateContent (replyEnv (Some repairedReply)) \<lparr>apiKey = Some (str ''AIzaSyExampleKey'')\<rparr>
     (generateBingoItemsRequest \<lparr>subject = str ''Wiskunde'', isMath = True\<rparr>
        (str ''optellen'') 4 None similar)
   = Inr \<lparr>text' = Some repairedReply\<rparr>"
  "JSON_parse (errorMessage (replyEnv (Some repairedReply)))
     (cleanJSON (case text' \<lparr>text' = Some repairedReply\<rparr> of None \<Rightarrow> [] | Some t \<Rightarrow> t))
   = Inr (JObject [(str ''items'', JArray repairedItems)])"
  "map_of [(str ''items'', JArray repairedItems)] (str ''items'') = Some (JArray repairedItems)"
  "\<forall>x\<in>set repairedItems. x \<noteq> JNull \<and> x \<noteq> JUndefined"
  by (simp_all add: getAIClient_example repairedReply_parse) (simp add: repairedItems_def)

theorem generateBingoItems_missing_field_is_Fout_witness:
  "getAIClient (API_KEY (replyEnv (Some repairedReply)))
     = Inr \<lparr>apiKey = Some (str ''AIzaSyExampleKey'')\<rparr>
   \<and> JSON_parse (errorMessage (replyEnv (Some repairedReply))) (cleanJSON repairedReply)
       = Inr (JObject [(str ''items'', JArray repairedItems)])
   \<and> JNull \<notin> set repairedItems \<and> JUndefined \<notin> set repairedItems
   \<and> repairedItems ! 0 = JObject [(str ''problem'', JString (str ''1+1''))]
   \<and> map_of [(str ''problem'', JString (str ''1+1''))] (str ''answer'') = None
   \<and> (\<exists>items. generateBingoItems (replyEnv (Some repairedReply))
                  \<lparr>subject = str ''Wiskunde'', isMath = True\<rparr> (str ''optellen'') 4 None similar
                = Inr items
           \<and> length items = length repairedItems
           \<and> (\<forall>i<length repairedItems. \<forall>ps. repairedItems ! i = JObject ps \<longrightarrow>
                 (map_of ps (str ''problem'') = None
                    \<longrightarrow> problem (items ! i) = JString (str ''Fout''))
                 \<and> (map_of ps (str ''answer'') = None
                    \<longrightarrow> answer (items ! i) = JString (str ''Fout''))
                 \<and> (\<forall>v. map_of ps (str ''problem'') = Some v \<and> truthy v
                    \<longrightarrow> problem (items ! i) = v)
                 \<and> (\<forall>v. map_of ps (str ''answer'') = Some v \<and> truthy v
                    \<longrightarrow> answer (items ! i) = v)))"
proof -
  have "str ''problem'' \<noteq> str ''answer''" by (simp add: str_def ch_def)
  with generateBingoItems_missing_field_is_Fout [OF repairedEnv_facts] repairedEnv_facts(1,3,5)
  show ?thesis by (simp add: repairedItems_def)
qed

theorem generateBingoItems_falsy_field_is_Fout_witness:
  "getAIClient (API_KEY (replyEnv (Some repairedReply)))
     = Inr \<lparr>apiKey = Some (str ''AIzaSyExampleKey'')\<rparr>
   \<and> JSON_parse (errorMessage (replyEnv (Some repairedReply))) (cleanJSON repairedReply)
       = Inr (JObject [(str ''items'', JArray repairedItems)])
   \<and> JNull \<notin> set repairedItems \<and> JUndefined \<notin> set repairedItems
   \<and> repairedItems ! 2 = JObject [(str ''problem'', JString []), (str ''answer'', JNull)]
   \<and> \<not> truthy (JString []) \<and> \<not> truthy JNull
   \<and> (\<exists>items. generateBingoItems (replyEnv (Some repairedReply))
                  \<lparr>subject = str ''Wiskunde'', isMath = True\<rparr> (str ''optellen'') 4 None similar
                = Inr items
           \<and> length items = length repairedItems
           \<and> (\<forall>i<length repairedItems. \<forall>ps v. repairedItems ! i = JObject ps \<and> \<not> truthy v \<longrightarrow>
                 (map_of ps (str ''problem'') = Some v
                    \<longrightarrow> problem (items ! i) = JString (str ''Fout''))
                 \<and> (map_of ps (str ''answer'') = Some v
                    \<longrightarrow> answer (items ! i) = JString (str ''Fout''))))"
  using generateBingoItems_falsy_field_is_Fout [OF repairedEnv_facts] repairedEnv_facts(1,3,5)
  by (simp add: repairedItems_def)

subsection \<open>The backtracking matcher\<close>

lemma greedy_longest:
  "k (acc @ takeWhile P s) (dropWhile P s) = Some y \<Longrightarrow> greedy P k acc s = Some y"
  by (induction s arbitrary: acc) (auto simp: greedy.simps)

lemma greedy_None_iff:
  "greedy P k acc s = None \<longleftrightarrow>
     (\<forall>n \<le> length (takeWhile P s). k (acc @ take n s) (drop n s) = None)"
proof (induction s arbitrary: acc)
  case Nil
  then show ?case by (simp add: greedy.simps)
next
  case (Cons x xs)
  show ?case
  proof (cases "P x")
    case False
    then show ?thesis by (simp add: greedy.simps)
  next
    case True
    have "greedy P k acc (x # xs) = None \<longleftrightarrow>
            greedy P k (acc @ [x]) xs = None \<and> k acc (x # xs) = None"
      using True by (auto simp: greedy.simps split: option.splits)
    also have "\<dots> \<longleftrightarrow> (\<forall>n \<le> length (takeWhile P xs).
                   k ((acc @ [x]) @ take n xs) (drop n xs) = None) \<and> k acc (x # xs) = None"
      by (simp only: Cons.IH)
    also have "\<dots> \<longleftrightarrow> (\<forall>n \<le> length (takeWhile P (x # xs)).
                   k (acc @ take n (x # xs)) (drop n (x # xs)) = None)"
    proof
      assume a: "(\<forall>n \<le> length (takeWhile P xs).
                   k ((acc @ [x]) @ take n xs) (drop n xs) = None) \<and> k acc (x # xs) = None"
      show "\<forall>n \<le> length (takeWhile P (x # xs)).
              k (acc @ take n (x # xs)) (drop n (x # xs)) = None"
      proof (intro allI impI)
        fix n assume n: "n \<le> length (takeWhile P (x # xs))"
        show "k (acc @ take n (x # xs)) (drop n (x # xs)) = None"
        proof (cases n)
          case 0
          with a show ?thesis by simp
        next
          case (Suc m)
          with n True have "m \<le> length (takeWhile P xs)" by simp
          with a Suc show ?thesis by simp
        qed
      qed
    next
      assume a: "\<forall>n \<le> length (takeWhile P (x # xs)).
              k (acc @ take n (x # xs)) (drop n (x # xs)) = None"
      have "k acc (x # xs) = None" using a [rule_format, of 0] by simp
      moreover have "\<forall>n \<le> length (takeWhile P xs).
                   k ((acc @ [x]) @ take n xs) (drop n xs) = None"
      proof (intro allI impI)
        fix n assume "n \<le> length (takeWhile P xs)"
        with True a [rule_format, of "Suc n"]
        show "k ((acc @ [x]) @ take n xs) (drop n xs) = None" by simp
      qed
      ultimately show "(\<forall>n \<le> length (takeWhile P xs).
                   k ((acc @ [x]) @ take n xs) (drop n xs) = None) \<and> k acc (x # xs) = None"
        by simp
    qed
    finally show ?thesis .
  qed
qed

lemma greedy_Some:
  "greedy P k acc s = Some y \<Longrightarrow>
     \<exists>n \<le> length (takeWhile P s). k (acc @ take n s) (drop n s) = Some y"
proof (induction s arbitrary: acc)
  case Nil
  then show ?case by (simp add: greedy.simps)
next
  case (Cons x xs)
  show ?case
  proof (cases "P x")
    case False
    with Cons.prems have "k (acc @ take 0 (x # xs)) (drop 0 (x # xs)) = Some y"
      by (simp add: greedy.simps)
    then show ?thesis by blast
  next
    case True
    show ?thesis
    proof (cases "greedy P k (acc @ [x]) xs")
      case None
      with True Cons.prems have "k (acc @ take 0 (x # xs)) (drop 0 (x # xs)) = Some y"
        by (simp add: greedy.simps)
      then show ?thesis by blast
    next
      case (Some z)
      with True Cons.prems have "z = y" by (simp add: greedy.simps)
      with Some Cons.IH [of "acc @ [x]"] obtain n where
        n: "n \<le> length (takeWhile P xs)" "k ((acc @ [x]) @ take n xs) (drop n xs) = Some y"
        by blast
      then have "Suc n \<le> length (takeWhile P (x # xs))"
        "k (acc @ take (Suc n) (x # xs)) (drop (Suc n) (x # xs)) = Some y"
        using True by simp_all
      then show ?thesis by blast
    qed
  qed
qed

lemma takeWhile_run:
  "\<forall>c\<in>set w. P c \<Longrightarrow> r = [] \<or> \<not> P (hd r) \<Longrightarrow> takeWhile P (w @ r) = w"
  by (cases r) (auto simp: takeWhile_append2 takeWhile_eq_all_conv)

lemma dropWhile_run:
  "\<forall>c\<in>set w. P c \<Longrightarrow> r = [] \<or> \<not> P (hd r) \<Longrightarrow> dropWhile P (w @ r) = r"
  by (cases r) (auto simp: dropWhile_append2)

lemma take_takeWhile_all:
  "n \<le> length (takeWhile P s) \<Longrightarrow> \<forall>c\<in>set (take n s). P c"
proof -
  assume n: "n \<le> length (takeWhile P s)"
  have "take n s = take n (takeWhile P s @ dropWhile P s)" by simp
  also have "\<dots> = take n (takeWhile P s)" using n by (simp only: take_append) simp
  finally have "set (take n s) \<subseteq> set (takeWhile P s)" by (simp add: set_take_subset)
  then show ?thesis by (auto dest: set_takeWhileD)
qed

lemma search_hit:
  "matchPieces ps s = Some (caps, rest) \<Longrightarrow> search ps pre s = Some (pre, caps, rest)"
  by (cases s) (simp_all add: search.simps)

lemma search_None_iff:
  "search ps pre s = None \<longleftrightarrow> (\<forall>i \<le> length s. matchPieces ps (drop i s) = None)"
proof (induction s arbitrary: pre)
  case Nil
  then show ?case by (auto simp: search.simps split: option.splits)
next
  case (Cons x xs)
  have "search ps pre (x # xs) = None \<longleftrightarrow>
          matchPieces ps (x # xs) = None \<and> search ps (pre @ [x]) xs = None"
    by (auto simp: search.simps split: option.splits)
  also have "\<dots> \<longleftrightarrow> matchPieces ps (x # xs) = None
                 \<and> (\<forall>i \<le> length xs. matchPieces ps (drop i xs) = None)"
    by (simp only: Cons.IH)
  also have "\<dots> \<longleftrightarrow> (\<forall>i \<le> length (x # xs). matchPieces ps (drop i (x # xs)) = None)"
  proof
    assume a: "matchPieces ps (x # xs) = None
                 \<and> (\<forall>i \<le> length xs. matchPieces ps (drop i xs) = None)"
    show "\<forall>i \<le> length (x # xs). matchPieces ps (drop i (x # xs)) = None"
    proof (intro allI impI)
      fix i assume "i \<le> length (x # xs)"
      with a show "matchPieces ps (drop i (x # xs)) = None" by (cases i) simp_all
    qed
  next
    assume a: "\<forall>i \<le> length (x # xs). matchPieces ps (drop i (x # xs)) = None"
    from a [rule_format, of 0] have "matchPieces ps (x # xs) = None" by simp
    moreover have "\<forall>i \<le> length xs. matchPieces ps (drop i xs) = None"
    proof (intro allI impI)
      fix i assume "i \<le> length xs"
      with a [rule_format, of "Suc i"] show "matchPieces ps (drop i xs) = None" by simp
    qed
    ultimately show "matchPieces ps (x # xs) = None
                 \<and> (\<forall>i \<le> length xs. matchPieces ps (drop i xs) = None)" by simp
  qed
  finally show ?case .
qed

lemma search_skip:
  "\<forall>i < length b. matchPieces ps (drop i b @ r) = None \<Longrightarrow>
     search ps pre (b @ r) = search ps (pre @ b) r"
proof (induction b arbitrary: pre)
  case Nil
  then show ?case by simp
next
  case (Cons x xs)
  from Cons.prems [rule_format, of 0] have 0: "matchPieces ps (x # xs @ r) = None" by simp
  have "\<forall>i < length xs. matchPieces ps (drop i xs @ r) = None"
  proof (intro allI impI)
    fix i assume "i < length xs"
    with Cons.prems [rule_format, of "Suc i"] show "matchPieces ps (drop i xs @ r) = None" by simp
  qed
  from Cons.IH [OF this, of "pre @ [x]"] 0 show ?case by (simp add: search.simps)
qed

subsection \<open>Data URLs\<close>

lemma base64_no_LineTerminator: "\<forall>c\<in>set (str '';base64,''). \<not> isLineTerminator c"
  by (simp add: str_def ch_def isLineTerminator_def)

lemma length_data [simp]: "length (str ''data:'') = 5" "length (str '';base64,'') = 8"
  "length (str ''data:image/'') = 11"
  by (simp_all add: str_def)

lemma prefix_append_drop: "prefix a s \<Longrightarrow> s = a @ drop (length a) s"
  by (auto simp: prefix_def)

lemma matchPieces_Lit:
  "matchPieces (Plain (Lit l) # ps) s = (if prefix l s then matchPieces ps (drop (length l) s) else None)"
  by (simp add: matchPieces.simps matchAtom.simps)

lemma matchPieces_Plus:
  "matchPieces (Plain (Plus c) # ps) s =
     greedy (inClass c) (\<lambda>txt rest. if txt = [] then None else matchPieces ps rest) [] s"
  by (simp add: matchPieces.simps matchAtom.simps)

lemma matchPieces_Star:
  "matchPieces (Plain (Star c) # ps) s = greedy (inClass c) (\<lambda>txt rest. matchPieces ps rest) [] s"
  by (simp add: matchPieces.simps matchAtom.simps)

lemma matchPieces_Group_Plus:
  "matchPieces (Group (Plus c) # ps) s =
     greedy (inClass c)
       (\<lambda>txt rest. if txt = [] then None
                    else map_option (\<lambda>(caps, r). (txt # caps, r)) (matchPieces ps rest)) [] s"
  by (simp add: matchPieces.simps matchAtom.simps)

lemma matchPieces_End: "matchPieces [EndOfInput] s = (if s = [] then Some ([], []) else None)"
  by (simp add: matchPieces.simps)

lemma plus_end:
  "matchPieces [Group (Plus AnyChar), EndOfInput] v =
     (if v \<noteq> [] \<and> (\<forall>c\<in>set v. \<not> isLineTerminator c) then Some ([v], []) else None)"
proof (cases "v \<noteq> [] \<and> (\<forall>c\<in>set v. \<not> isLineTerminator c)")
  case True
  then have t: "takeWhile (inClass AnyChar) v = v" "dropWhile (inClass AnyChar) v = []"
    by (simp_all add: takeWhile_eq_all_conv)
  have "(\<lambda>txt rest. if txt = [] then None
                       else map_option (\<lambda>(caps, r). (txt # caps, r)) (matchPieces [EndOfInput] rest))
          ([] @ takeWhile (inClass AnyChar) v) (dropWhile (inClass AnyChar) v) = Some ([v], [])"
    unfolding t using True by (simp add: matchPieces_End)
  then have "greedy (inClass AnyChar)
          (\<lambda>txt rest. if txt = [] then None
                       else map_option (\<lambda>(caps, r). (txt # caps, r)) (matchPieces [EndOfInput] rest))
          [] v = Some ([v], [])"
    by (rule greedy_longest)
  with True show ?thesis by (simp add: matchPieces_Group_Plus)
next
  case False
  have "greedy (inClass AnyChar)
          (\<lambda>txt rest. if txt = [] then None
                       else map_option (\<lambda>(caps, r). (txt # caps, r)) (matchPieces [EndOfInput] rest))
          [] v = None"
    unfolding greedy_None_iff
  proof (intro allI impI)
    fix n assume n: "n \<le> length (takeWhile (inClass AnyChar) v)"
    show "(if [] @ take n v = [] then None
           else map_option (\<lambda>(caps, r). (([] @ take n v) # caps, r))
                  (matchPieces [EndOfInput] (drop n v))) = None"
    proof (cases "take n v = []")
      case True
      then show ?thesis by simp
    next
      case nonempty: False
      then have "v \<noteq> []" by auto
      with False obtain c where c: "c \<in> set v" "isLineTerminator c" by auto
      have "length (takeWhile (inClass AnyChar) v) < length v"
      proof (rule ccontr)
        assume "\<not> length (takeWhile (inClass AnyChar) v) < length v"
        with length_takeWhile_le [of "inClass AnyChar" v]
        have "length (takeWhile (inClass AnyChar) v) = length v" by simp
        then have "takeWhile (inClass AnyChar) v = v"
          by (metis takeWhile_eq_take take_all order_refl)
        with c show False by (auto simp: takeWhile_eq_all_conv)
      qed
      with n have "drop n v \<noteq> []" by simp
      then show ?thesis by (simp add: matchPieces_End)
    qed
  qed
  with False show ?thesis by (simp add: matchPieces_Group_Plus)
qed

lemma dataUrlPattern_unfold:
  "matchPieces (pieces dataUrlPattern) s =
     (if prefix (str ''data:'') s then greedy (inClass AnyChar) payloadMatch [] (drop 5 s) else None)"
proof -
  have "(\<lambda>txt rest. if txt = [] then None
                    else map_option (\<lambda>(caps, r). (txt # caps, r))
                           (matchPieces [Plain (Lit (str '';base64,'')), Group (Plus AnyChar),
                                         EndOfInput] rest))
        = payloadMatch"
    by (intro ext) (simp add: payloadMatch_def matchPieces_Lit plus_end)
  then show ?thesis
    by (simp add: dataUrlPattern_def matchPieces_Lit [of "str ''data:''"] matchPieces_Group_Plus)
qed

lemma dataUrlPattern_match:
  "matchPieces (pieces dataUrlPattern) s \<noteq> None \<longleftrightarrow> dataUrlShape s"
proof
  assume "dataUrlShape s"
  then obtain m p where s: "s = str ''data:'' @ m @ str '';base64,'' @ p" and m: "m \<noteq> []"
    and p: "p \<noteq> []" and nl: "\<forall>c\<in>set (m @ p). \<not> isLineTerminator c"
    by (auto simp: dataUrlShape_def)
  let ?u = "m @ str '';base64,'' @ p"
  from nl base64_no_LineTerminator have "\<forall>c\<in>set ?u. inClass AnyChar c" by auto
  then have "takeWhile (inClass AnyChar) ?u = ?u" by (simp only: takeWhile_eq_all_conv)
  then have len: "length m \<le> length (takeWhile (inClass AnyChar) ?u)" by simp
  have hit: "payloadMatch ([] @ take (length m) ?u) (drop (length m) ?u) \<noteq> None"
    using m p nl by (simp add: payloadMatch_def)
  have "greedy (inClass AnyChar) payloadMatch [] ?u \<noteq> None"
  proof
    assume "greedy (inClass AnyChar) payloadMatch [] ?u = None"
    then have "\<forall>n \<le> length (takeWhile (inClass AnyChar) ?u).
                 payloadMatch ([] @ take n ?u) (drop n ?u) = None"
      by (simp only: greedy_None_iff)
    from this [rule_format, OF len] hit show False by contradiction
  qed
  moreover have "prefix (str ''data:'') s" "drop 5 s = ?u" by (simp_all add: s)
  ultimately show "matchPieces (pieces dataUrlPattern) s \<noteq> None"
    by (simp add: dataUrlPattern_unfold)
next
  assume a: "matchPieces (pieces dataUrlPattern) s \<noteq> None"
  define u where "u = drop 5 s"
  from a have pre: "prefix (str ''data:'') s"
    by (simp add: dataUrlPattern_unfold split: if_splits)
  with a have "greedy (inClass AnyChar) payloadMatch [] u \<noteq> None"
    by (simp add: dataUrlPattern_unfold u_def)
  then obtain y where "greedy (inClass AnyChar) payloadMatch [] u = Some y"
    by (cases "greedy (inClass AnyChar) payloadMatch [] u") simp_all
  from greedy_Some [OF this] obtain n where n: "n \<le> length (takeWhile (inClass AnyChar) u)"
    and k: "payloadMatch ([] @ take n u) (drop n u) = Some y" by (elim exE conjE)
  define m where "m = take n u"
  define v where "v = drop n u"
  define p where "p = drop 8 v"
  from k have m: "m \<noteq> []" and b: "prefix (str '';base64,'') v"
    and p: "p \<noteq> []" and pl: "\<forall>c\<in>set p. \<not> isLineTerminator c"
    by (simp_all add: payloadMatch_def m_def v_def p_def split: if_splits)
  from take_takeWhile_all [OF n] have ml: "\<forall>c\<in>set m. \<not> isLineTerminator c"
    by (simp add: m_def)
  have "s = str ''data:'' @ u" using prefix_append_drop [OF pre] by (simp add: u_def)
  also have "u = m @ v" by (simp add: m_def v_def)
  also have "v = str '';base64,'' @ p" using prefix_append_drop [OF b] by (simp add: p_def)
  finally have eq: "s = str ''data:'' @ m @ str '';base64,'' @ p" .
  from ml pl have "\<forall>c\<in>set (m @ p). \<not> isLineTerminator c" by auto
  with eq m p show "dataUrlShape s"
    unfolding dataUrlShape_def by (intro exI [of _ m] exI [of _ p] conjI)
qed

lemma match_dataUrlPattern_None: "match dataUrlPattern s = None \<longleftrightarrow> \<not> dataUrlShape s"
proof -
  have "fromStart dataUrlPattern" by (simp add: dataUrlPattern_def)
  then have "match dataUrlPattern s = None \<longleftrightarrow> matchPieces (pieces dataUrlPattern) s = None"
    by (auto simp: match_def exec_def split: option.splits)
  with dataUrlPattern_match [of s] show ?thesis by auto
qed

lemma imagePrefixPattern_unfold:
  "matchPieces (pieces imagePrefixPattern) s =
     (if prefix (str ''data:image/'') s
      then greedy (inClass WordChar) payloadAfterPrefix [] (drop 11 s) else None)"
proof -
  have "(\<lambda>txt rest. if txt = [] then None
                    else matchPieces [Plain (Lit (str '';base64,''))] rest)
        = payloadAfterPrefix"
    by (intro ext) (simp add: payloadAfterPrefix_def matchPieces_Lit matchPieces.simps(1))
  then show ?thesis
    by (simp add: imagePrefixPattern_def matchPieces_Lit [of "str ''data:image/''"]
        matchPieces_Plus)
qed

lemma base64_starts_no_WordChar: "\<not> isWordChar (hd (str '';base64,'' @ r))"
  by (simp add: str_def ch_def isWordChar_def)

lemma replace_imagePrefixPattern_hit:
  assumes "s = str ''data:image/'' @ w @ str '';base64,'' @ r" and "w \<noteq> []"
    and "\<forall>c\<in>set w. isWordChar c"
  shows "replace imagePrefixPattern [] s = r"
proof -
  let ?u = "w @ str '';base64,'' @ r"
  have w: "\<forall>c\<in>set w. inClass WordChar c" using assms(3) by simp
  have stop: "str '';base64,'' @ r = [] \<or> \<not> inClass WordChar (hd (str '';base64,'' @ r))"
    using base64_starts_no_WordChar [of r] by simp
  have t: "takeWhile (inClass WordChar) ?u = w" "dropWhile (inClass WordChar) ?u = str '';base64,'' @ r"
    by (rule takeWhile_run [OF w stop], rule dropWhile_run [OF w stop])
  have "payloadAfterPrefix ([] @ takeWhile (inClass WordChar) ?u) (dropWhile (inClass WordChar) ?u)
          = Some ([], r)"
    unfolding t using assms(2) by (simp add: payloadAfterPrefix_def)
  then have "greedy (inClass WordChar) payloadAfterPrefix [] ?u = Some ([], r)"
    by (rule greedy_longest)
  moreover have "prefix (str ''data:image/'') s" "drop 11 s = ?u" by (simp_all add: assms(1))
  ultimately have "matchPieces (pieces imagePrefixPattern) s = Some ([], r)"
    by (simp add: imagePrefixPattern_unfold)
  moreover have "fromStart imagePrefixPattern" by (simp add: imagePrefixPattern_def)
  ultimately show ?thesis by (simp add: replace_def exec_def)
qed

lemma replace_imagePrefixPattern_miss:
  assumes "\<not> (\<exists>w r. s = str ''data:image/'' @ w @ str '';base64,'' @ r \<and> w \<noteq> []
                \<and> (\<forall>c\<in>set w. isWordChar c))"
  shows "replace imagePrefixPattern [] s = s"
proof -
  have "matchPieces (pieces imagePrefixPattern) s = None"
  proof (rule ccontr)
    assume a: "matchPieces (pieces imagePrefixPattern) s \<noteq> None"
    define u where "u = drop 11 s"
    from a have pre: "prefix (str ''data:image/'') s"
      by (simp add: imagePrefixPattern_unfold split: if_splits)
    with a have "greedy (inClass WordChar) payloadAfterPrefix [] u \<noteq> None"
      by (simp add: imagePrefixPattern_unfold u_def)
    then obtain y where "greedy (inClass WordChar) payloadAfterPrefix [] u = Some y"
      by (cases "greedy (inClass WordChar) payloadAfterPrefix [] u") simp_all
    from greedy_Some [OF this] obtain n where n: "n \<le> length (takeWhile (inClass WordChar) u)"
      and k: "payloadAfterPrefix ([] @ take n u) (drop n u) = Some y" by (elim exE conjE)
    define w where "w = take n u"
    define v where "v = drop n u"
    from k have w: "w \<noteq> []" and b: "prefix (str '';base64,'') v"
      by (simp_all add: payloadAfterPrefix_def w_def v_def split: if_splits)
    from take_takeWhile_all [OF n] have ww: "\<forall>c\<in>set w. isWordChar c" by (simp add: w_def)
    have "s = str ''data:image/'' @ u" using prefix_append_drop [OF pre] by (simp add: u_def)
    also have "u = w @ v" by (simp add: w_def v_def)
    also have "v = str '';base64,'' @ drop 8 v" using prefix_append_drop [OF b] by simp
    finally have "s = str ''data:image/'' @ w @ str '';base64,'' @ drop 8 v" .
    with w ww assms show False by blast
  qed
  moreover have "fromStart imagePrefixPattern" by (simp add: imagePrefixPattern_def)
  ultimately show ?thesis by (simp add: replace_def exec_def)
qed

lemma parseDataUrl_png:
  "parseDataUrl (str ''data:image/png;base64,AAAA'')
     = \<lparr>mimeType = str ''image/png'', data = str ''AAAA''\<rparr>"
  by (simp add: regex_eval)

text \<open>
  C8. \<^verbatim>\<open>parseDataUrl("data:image/png;base64,AAAA")\<close> is \<^verbatim>\<open>{mimeType: "image/png", data:
  "AAAA"}\<close>; for every string that has not the shape of a data URL the mime type is
  \<^verbatim>\<open>image/jpeg\<close>, and the data are the string without its prefix
  \<^verbatim>\<open>data:image/<word>;base64,\<close> when it has one, the string itself otherwise.
\<close>

theorem parseDataUrl_example_and_fallback:
  "parseDataUrl (str ''data:image/png;base64,AAAA'')
     = \<lparr>mimeType = str ''image/png'', data = str ''AAAA''\<rparr>
   \<and> (\<forall>s. \<not> dataUrlShape s \<longrightarrow>
          mimeType (parseDataUrl s) = str ''image/jpeg''
          \<and> (\<forall>w r. s = str ''data:image/'' @ w @ str '';base64,'' @ r \<and> w \<noteq> []
                  \<and> (\<forall>c\<in>set w. isWordChar c)
                \<longrightarrow> data (parseDataUrl s) = r)
          \<and> (\<not> (\<exists>w r. s = str ''data:image/'' @ w @ str '';base64,'' @ r \<and> w \<noteq> []
                  \<and> (\<forall>c\<in>set w. isWordChar c))
                \<longrightarrow> data (parseDataUrl s) = s))"
proof (intro conjI allI impI)
  show "parseDataUrl (str ''data:image/png;base64,AAAA'')
     = \<lparr>mimeType = str ''image/png'', data = str ''AAAA''\<rparr>"
    by (rule parseDataUrl_png)
next
  fix s assume "\<not> dataUrlShape s"
  then have "match dataUrlPattern s = None" by (simp add: match_dataUrlPattern_None)
  then show "mimeType (parseDataUrl s) = str ''image/jpeg''" by (simp add: parseDataUrl_def)
next
  fix s w r
  assume n: "\<not> dataUrlShape s"
    and d: "s = str ''data:image/'' @ w @ str '';base64,'' @ r \<and> w \<noteq> []
                  \<and> (\<forall>c\<in>set w. isWordChar c)"
  from n have "match dataUrlPattern s = None" by (simp add: match_dataUrlPattern_None)
  moreover from d have "replace imagePrefixPattern [] s = r"
    by (intro replace_imagePrefixPattern_hit [of s w r]) simp_all
  ultimately show "data (parseDataUrl s) = r" by (simp add: parseDataUrl_def)
next
  fix s
  assume n: "\<not> dataUrlShape s"
    and d: "\<not> (\<exists>w r. s = str ''data:image/'' @ w @ str '';base64,'' @ r \<and> w \<noteq> []
                  \<and> (\<forall>c\<in>set w. isWordChar c))"
  from n have "match dataUrlPattern s = None" by (simp add: match_dataUrlPattern_None)
  moreover from d have "replace imagePrefixPattern [] s = s"
    by (rule replace_imagePrefixPattern_miss)
  ultimately show "data (parseDataUrl s) = s" by (simp add: parseDataUrl_def)
qed

theorem parseDataUrl_example_and_fallback_witness:
  "\<not> dataUrlShape (str ''data:image/png;base64,'')
   \<and> parseDataUrl (str ''data:image/png;base64,'') = \<lparr>mimeType = str ''image/jpeg'', data = []\<rparr>
   \<and> \<not> dataUrlShape (str ''AAAA'')
   \<and> parseDataUrl (str ''AAAA'') = \<lparr>mimeType = str ''image/jpeg'', data = str ''AAAA''\<rparr>"
proof -
  have m1: "match dataUrlPattern (str ''data:image/png;base64,'') = None"
    by (simp add: regex_eval)
  have m2: "match dataUrlPattern (str ''AAAA'') = None"
    by (simp add: regex_eval)
  from m1 have n1: "\<not> dataUrlShape (str ''data:image/png;base64,'')"
    by (simp add: match_dataUrlPattern_None)
  from m2 have n2: "\<not> dataUrlShape (str ''AAAA'')"
    by (simp add: match_dataUrlPattern_None)
  note t = parseDataUrl_example_and_fallback [THEN conjunct2, rule_format]
  have d1: "data (parseDataUrl (str ''data:image/png;base64,'')) = []"
    by (rule t [OF n1, THEN conjunct2, THEN conjunct1, rule_format, of "str ''png''"])
       (simp add: str_def ch_def isWordChar_def)
  have d2: "data (parseDataUrl (str ''AAAA'')) = str ''AAAA''"
    by (rule t [OF n2, THEN conjunct2, THEN conjunct2, rule_format])
       (simp add: str_def ch_def)
  from t [OF n1, THEN conjunct1] t [OF n2, THEN conjunct1] d1 d2 n1 n2
  show ?thesis by (cases "parseDataUrl (str ''data:image/png;base64,'')";
                   cases "parseDataUrl (str ''AAAA'')") simp
qed

subsection \<open>Code fences\<close>

lemma length_fences [simp]: "length (str ''```'') = 3" "length (str ''```json'') = 7"
  by (simp_all add: str_def)

lemma fence_head: "hd (str ''```'' @ r) = 0x60" "hd (str ''```json'' @ r) = 0x60"
  "\<not> isWhiteSpace 0x60" "str ''```'' \<noteq> []" "last (str ''```'') = 0x60"
  by (simp_all add: str_def ch_def isWhiteSpace_def)

lemma closingFence_unfold:
  "matchPieces (pieces closingFence) u = greedy (inClass WhiteSpace) fenceEnd [] u"
proof -
  have "(\<lambda>txt rest. matchPieces [Plain (Lit (str ''```'')), EndOfInput] rest) = fenceEnd"
  proof (intro ext)
    fix taken :: "jsstring" and rest
    show "matchPieces [Plain (Lit (str ''```'')), EndOfInput] rest = fenceEnd taken rest"
    proof (cases "prefix (str ''```'') rest")
      case True
      from prefix_append_drop [OF this] have "rest = str ''```'' @ drop 3 rest" by simp
      then have "drop 3 rest = [] \<longleftrightarrow> rest = str ''```''"
        by (metis append_Nil2 append_eq_conv_conj self_append_conv)
      with True show ?thesis by (simp add: fenceEnd_def matchPieces_Lit matchPieces_End)
    next
      case False
      then have "rest \<noteq> str ''```''" by auto
      with False show ?thesis by (simp add: fenceEnd_def matchPieces_Lit)
    qed
  qed
  then show ?thesis by (simp add: closingFence_def matchPieces_Star)
qed

lemma closingFence_hit:
  assumes "\<forall>c\<in>set w. isWhiteSpace c"
  shows "matchPieces (pieces closingFence) (w @ str ''```'') = Some ([], [])"
proof -
  have w: "\<forall>c\<in>set w. inClass WhiteSpace c" using assms by simp
  have stop: "str ''```'' = [] \<or> \<not> inClass WhiteSpace (hd (str ''```''))"
    using fence_head(1) [of "[]"] fence_head(3) by simp
  have "fenceEnd ([] @ takeWhile (inClass WhiteSpace) (w @ str ''```''))
          (dropWhile (inClass WhiteSpace) (w @ str ''```'')) = Some ([], [])"
    unfolding takeWhile_run [OF w stop] dropWhile_run [OF w stop] by (simp add: fenceEnd_def)
  then show ?thesis unfolding closingFence_unfold by (rule greedy_longest)
qed

lemma closingFence_match_ends_with_fence:
  assumes "matchPieces (pieces closingFence) u \<noteq> None"
  shows "\<exists>w. u = w @ str ''```'' \<and> (\<forall>c\<in>set w. isWhiteSpace c)"
proof -
  from assms obtain y where "greedy (inClass WhiteSpace) fenceEnd [] u = Some y"
    unfolding closingFence_unfold by (cases "greedy (inClass WhiteSpace) fenceEnd [] u") simp_all
  from greedy_Some [OF this] obtain n where n: "n \<le> length (takeWhile (inClass WhiteSpace) u)"
    and k: "fenceEnd ([] @ take n u) (drop n u) = Some y" by (elim exE conjE)
  from k have "drop n u = str ''```''" by (simp add: fenceEnd_def split: if_splits)
  then have "u = take n u @ str ''```''" by (metis append_take_drop_id)
  moreover from take_takeWhile_all [OF n] have "\<forall>c\<in>set (take n u). isWhiteSpace c" by simp
  ultimately show ?thesis by blast
qed

lemma replace_closingFence_miss:
  assumes "s = [] \<or> last s \<noteq> 0x60"
  shows "replace closingFence [] s = s"
proof -
  have "search (pieces closingFence) [] s = None"
    unfolding search_None_iff
  proof (intro allI impI, rule ccontr)
    fix i assume "i \<le> length s" and "matchPieces (pieces closingFence) (drop i s) \<noteq> None"
    from closingFence_match_ends_with_fence [OF this(2)] obtain w where
      "drop i s = w @ str ''```''" by blast
    then have "s = take i s @ w @ str ''```''" by (metis append_take_drop_id)
    then have "s \<noteq> []" "last s = last (str ''```'')"
      using fence_head(4) by (metis append_is_Nil_conv, metis last_appendR append_is_Nil_conv)
    with assms fence_head(5) show False by simp
  qed
  moreover have "\<not> fromStart closingFence" by (simp add: closingFence_def)
  ultimately show ?thesis by (simp add: replace_def exec_def)
qed

lemma replace_closingFence_hit:
  assumes b: "b \<noteq> []" "\<not> isWhiteSpace (last b)" and w: "\<forall>c\<in>set w. isWhiteSpace c"
  shows "replace closingFence [] (b @ w @ str ''```'') = b"
proof -
  have "\<forall>i < length b. matchPieces (pieces closingFence) (drop i b @ w @ str ''```'') = None"
  proof (intro allI impI, rule ccontr)
    fix i assume i: "i < length b"
      and "matchPieces (pieces closingFence) (drop i b @ w @ str ''```'') \<noteq> None"
    from closingFence_match_ends_with_fence [OF this(2)] obtain w' where
      eq: "drop i b @ w @ str ''```'' = w' @ str ''```''" and w': "\<forall>c\<in>set w'. isWhiteSpace c"
      by blast
    from eq have "(drop i b @ w) @ str ''```'' = w' @ str ''```''" by simp
    then have "w' = drop i b @ w" by (simp only: append_same_eq)
    moreover from i b have "last b \<in> set (drop i b)"
      by (metis drop_eq_Nil last_drop last_in_set not_le)
    ultimately have "isWhiteSpace (last b)" using w' by auto
    with b show False by simp
  qed
  from search_skip [OF this, of "[]"] search_hit [OF closingFence_hit [OF w], of "[] @ b"]
  have "search (pieces closingFence) [] (b @ w @ str ''```'') = Some (b, [], [])" by simp
  moreover have "\<not> fromStart closingFence" by (simp add: closingFence_def)
  ultimately show ?thesis by (simp add: replace_def exec_def)
qed

lemma replace_openingFence_miss:
  assumes "\<not> prefix (str ''```'') s"
  shows "replace openingFence [] s = s" "replace openingJsonFence [] s = s"
proof -
  have "\<not> prefix (str ''```json'') s"
  proof
    assume "prefix (str ''```json'') s"
    moreover have "prefix (str ''```'') (str ''```json'')" by (simp add: str_def)
    ultimately have "prefix (str ''```'') s" by (rule prefix_order.trans [rotated])
    with assms show False by simp
  qed
  with assms show "replace openingFence [] s = s" "replace openingJsonFence [] s = s"
    by (simp_all add: replace_def exec_def openingFence_def openingJsonFence_def matchPieces_Lit)
qed

lemma replace_openingJsonFence_hit:
  assumes w: "\<forall>c\<in>set w. isWhiteSpace c" and b: "b = [] \<or> \<not> isWhiteSpace (hd b)"
  shows "replace openingJsonFence [] (str ''```json'' @ w @ b) = b"
proof -
  have w': "\<forall>c\<in>set w. inClass WhiteSpace c" using w by simp
  have stop: "b = [] \<or> \<not> inClass WhiteSpace (hd b)" using b by simp
  have "(\<lambda>txt rest. matchPieces [] rest) ([] @ takeWhile (inClass WhiteSpace) (w @ b))
          (dropWhile (inClass WhiteSpace) (w @ b)) = Some ([], b)"
    unfolding takeWhile_run [OF w' stop] dropWhile_run [OF w' stop]
    by (simp add: matchPieces.simps(1))
  then have "greedy (inClass WhiteSpace) (\<lambda>txt rest. matchPieces [] rest) [] (w @ b) = Some ([], b)"
    by (rule greedy_longest)
  then have "matchPieces (pieces openingJsonFence) (str ''```json'' @ w @ b) = Some ([], b)"
    by (simp add: openingJsonFence_def matchPieces_Lit matchPieces_Star)
  moreover have "fromStart openingJsonFence" by (simp add: openingJsonFence_def)
  ultimately show ?thesis by (simp add: replace_def exec_def)
qed

lemma trim_padded:
  assumes "\<forall>c\<in>set w1. isWhiteSpace c" "\<forall>c\<in>set w2. isWhiteSpace c"
    and "b \<noteq> []" "\<not> isWhiteSpace (hd b)" "\<not> isWhiteSpace (last b)"
  shows "trim (w1 @ b @ w2) = b"
proof -
  have 1: "dropWhile isWhiteSpace (w1 @ b @ w2) = b @ w2"
    using assms(1,3,4) by (intro dropWhile_run) auto
  have "rev (b @ w2) = rev w2 @ rev b" by simp
  moreover have "dropWhile isWhiteSpace (rev w2 @ rev b) = rev b"
    using assms(2,3,5) by (intro dropWhile_run) (auto simp: hd_rev)
  ultimately show ?thesis by (simp add: trim_def 1)
qed

lemma cleanJSON_padded:
  assumes w: "\<forall>c\<in>set w1. isWhiteSpace c" "\<forall>c\<in>set w2. isWhiteSpace c"
    and b: "b \<noteq> []" "\<not> isWhiteSpace (hd b)" "hd b \<noteq> 0x60"
      "\<not> isWhiteSpace (last b)" "last b \<noteq> 0x60"
  shows "cleanJSON (w1 @ b @ w2) = b"
proof -
  let ?s = "w1 @ b @ w2"
  have ne: "?s \<noteq> []" using b by simp
  have "hd ?s \<noteq> 0x60"
    using w(1) b fence_head(3) by (cases w1) auto
  then have "\<not> prefix (str ''```'') ?s"
    using ne by (cases ?s) (auto simp: str_def ch_def)
  note op_miss = replace_openingFence_miss [OF this]
  have "last ?s \<noteq> 0x60"
    using w(2) b fence_head(3) by (cases w2 rule: rev_cases) auto
  then have cl_miss: "replace closingFence [] ?s = ?s"
    by (intro replace_closingFence_miss) simp
  from ne show ?thesis
    by (simp only: cleanJSON_def op_miss cl_miss if_False trim_padded [OF w b(1,2,4)])
qed

lemma cleanJSON_fenced:
  assumes w: "\<forall>c\<in>set w1. isWhiteSpace c" "\<forall>c\<in>set w2. isWhiteSpace c"
    and b: "b \<noteq> []" "\<not> isWhiteSpace (hd b)" "hd b \<noteq> 0x60" "\<not> isWhiteSpace (last b)"
  shows "cleanJSON (str ''```json'' @ w1 @ b @ w2 @ str ''```'') = b"
proof -
  let ?s = "str ''```json'' @ w1 @ b @ w2 @ str ''```''"
  have ne: "?s \<noteq> []" using b by simp
  have 1: "replace openingJsonFence [] ?s = b @ w2 @ str ''```''"
    using b by (intro replace_openingJsonFence_hit [OF w(1)]) simp
  have "\<not> prefix (str ''```'') (b @ w2 @ str ''```'')"
    using b by (cases b) (auto simp: str_def ch_def)
  then have 2: "replace openingFence [] (b @ w2 @ str ''```'') = b @ w2 @ str ''```''"
    by (rule replace_openingFence_miss)
  have 3: "replace closingFence [] (b @ w2 @ str ''```'') = b"
    by (rule replace_closingFence_hit [OF b(1,4) w(2)])
  have 4: "trim b = b" using trim_padded [of "[]" "[]" b] b by simp
  from ne show ?thesis by (simp only: cleanJSON_def 1 2 3 4 if_False)
qed

lemma wiskunde_reply_shape:
  "str ''{\"subject\":\"Wiskunde\",\"isMath\":true}'' \<noteq> []"
  "\<not> isWhiteSpace (hd (str ''{\"subject\":\"Wiskunde\",\"isMath\":true}''))"
  "hd (str ''{\"subject\":\"Wiskunde\",\"isMath\":true}'') \<noteq> 0x60"
  "\<not> isWhiteSpace (last (str ''{\"subject\":\"Wiskunde\",\"isMath\":true}''))"
  "last (str ''{\"subject\":\"Wiskunde\",\"isMath\":true}'') \<noteq> 0x60"
  by (simp_all add: str_def ch_def isWhiteSpace_def)

lemma wiskunde_reply_parse:
  "JSON_parse msg (str ''{\"subject\":\"Wiskunde\",\"isMath\":true}'')
     = Inr (JObject [(str ''subject'', JString (str ''Wiskunde'')), (str ''isMath'', JBool True)])"
  by (simp add: json_eval str_def ch_def)

text \<open>
  C7. With a valid key, when the remote reply is \<^verbatim>\<open>{"subject":"Wiskunde","isMath":true}\<close>,
  bare or between \<^verbatim>\<open>```json\<close> and \<^verbatim>\<open>```\<close> with any white space around it inside the
  fence, \<^verbatim>\<open>detectSubject\<close> returns the parsed object
  \<^verbatim>\<open>{subject: "Wiskunde", isMath: true}\<close>.
\<close>

theorem detectSubject_returns_parsed_Wiskunde:
  assumes key: "getAIClient (API_KEY env) = Inr ai"
    and remote: "generateContent env ai (detectSubjectRequest topic imageBase64) = Inr response"
    and reply: "text' response = Some (str ''{\"subject\":\"Wiskunde\",\"isMath\":true}'')
       \<or> (\<exists>w1 w2. (\<forall>c\<in>set (w1 @ w2). isWhiteSpace c)
             \<and> text' response
                 = Some (str ''```json'' @ w1 @ str ''{\"subject\":\"Wiskunde\",\"isMath\":true}''
                           @ w2 @ str ''```''))"
  shows "detectSubject env topic imageBase64
           = Inr (JObject [(str ''subject'', JString (str ''Wiskunde'')), (str ''isMath'', JBool True)])"
proof -
  let ?b = "str ''{\"subject\":\"Wiskunde\",\"isMath\":true}''"
  have "cleanJSON (case text' response of None \<Rightarrow> [] | Some t \<Rightarrow> t) = ?b"
    using reply
  proof
    assume "text' response = Some ?b"
    moreover have "cleanJSON ([] @ ?b @ []) = ?b"
      by (rule cleanJSON_padded) (simp_all add: wiskunde_reply_shape)
    ultimately show ?thesis by simp
  next
    assume "\<exists>w1 w2. (\<forall>c\<in>set (w1 @ w2). isWhiteSpace c)
             \<and> text' response = Some (str ''```json'' @ w1 @ ?b @ w2 @ str ''```'')"
    then obtain w1 w2 where w: "\<forall>c\<in>set w1. isWhiteSpace c" "\<forall>c\<in>set w2. isWhiteSpace c"
      and t: "text' response = Some (str ''```json'' @ w1 @ ?b @ w2 @ str ''```'')"
      by auto
    have "cleanJSON (str ''```json'' @ w1 @ ?b @ w2 @ str ''```'') = ?b"
      by (rule cleanJSON_fenced [OF w wiskunde_reply_shape(1,2,3,4)])
    with t show ?thesis by simp
  qed
  with key remote show ?thesis
    by (simp add: detectSubject_def detectSubject_try_def wiskunde_reply_parse)
qed

theorem detectSubject_returns_parsed_Wiskunde_witness:
  "getAIClient (API_KEY (replyEnv (Some (str ''```json\<newline>{\"subject\":\"Wiskunde\",\"isMath\":true}\<newline>```''))))
     = Inr \<lparr>apiKey = Some (str ''AIzaSyExampleKey'')\<rparr>
   \<and> isWhiteSpace 0x0A
   \<and> str ''```json\<newline>{\"subject\":\"Wiskunde\",\"isMath\":true}\<newline>```''
       = str ''```json'' @ [0x0A] @ str ''{\"subject\":\"Wiskunde\",\"isMath\":true}'' @ [0x0A] @ str ''```''
   \<and> detectSubject (replyEnv (Some (str ''```json\<newline>{\"subject\":\"Wiskunde\",\"isMath\":true}\<newline>```''))) [] None
       = Inr (JObject [(str ''subject'', JString (str ''Wiskunde'')), (str ''isMath'', JBool True)])
   \<and> detectSubject (replyEnv (Some (str ''{\"subject\":\"Wiskunde\",\"isMath\":true}''))) [] None
       = Inr (JObject [(str ''subject'', JString (str ''Wiskunde'')), (str ''isMath'', JBool True)])"
proof -
  let ?b = "str ''{\"subject\":\"Wiskunde\",\"isMath\":true}''"
  let ?f = "str ''```json\<newline>{\"subject\":\"Wiskunde\",\"isMath\":true}\<newline>```''"
  let ?ai = "\<lparr>apiKey = Some (str ''AIzaSyExampleKey'')\<rparr>"
  have key: "\<And>r. getAIClient (API_KEY (replyEnv r)) = Inr ?ai"
    by (simp add: getAIClient_example)
  have remote: "\<And>r. generateContent (replyEnv r) ?ai (detectSubjectRequest [] None)
                  = Inr \<lparr>text' = r\<rparr>"
    by simp
  have ws: "isWhiteSpace 0x0A" by (simp add: isWhiteSpace_def)
  have f: "?f = str ''```json'' @ [0x0A] @ ?b @ [0x0A] @ str ''```''"
    by (simp add: str_def ch_def)
  have fenced: "text' \<lparr>text' = Some ?f\<rparr> = Some ?b
       \<or> (\<exists>w1 w2. (\<forall>c\<in>set (w1 @ w2). isWhiteSpace c)
             \<and> text' \<lparr>text' = Some ?f\<rparr> = Some (str ''```json'' @ w1 @ ?b @ w2 @ str ''```''))"
    apply (rule disjI2)
    apply (rule exI [of _ "[0x0A]"])
    apply (rule exI [of _ "[0x0A]"])
    using ws f apply simp
    done
  have plain: "text' \<lparr>text' = Some ?b\<rparr> = Some ?b
       \<or> (\<exists>w1 w2. (\<forall>c\<in>set (w1 @ w2). isWhiteSpace c)
             \<and> text' \<lparr>text' = Some ?b\<rparr> = Some (str ''```json'' @ w1 @ ?b @ w2 @ str ''```''))"
    by simp
  from detectSubject_returns_parsed_Wiskunde [OF key remote fenced]
    detectSubject_returns_parsed_Wiskunde [OF key remote plain] key [of "Some ?f"] ws f
  show ?thesis by simp
qed

subsection \<open>What the parser has read does not depend on what follows\<close>





































subsection \<open>What \<^verbatim>\<open>cleanJSON\<close> changes for \<^verbatim>\<open>JSON.parse\<close>\<close>





subsection \<open>The two modules\<close>









end
